theory Spec2Isabelle
  imports Main "HOL-Library.Multiset" "HOL-Library.AList" "HOL-Library.Char_ord"
    "HOL-Library.List_Lexorder"
begin

section \<open>Data model of the flow logs (dist/services/calico-whisker.d.ts)\<close>

text \<open>
  A policy hit. The field \<open>trigger\<close> refers to another policy hit or is null, so the
  interface is a recursive datatype. Selectors carry the prefix \<open>p_\<close> where the
  field name is also a field of a flow log.
\<close>

datatype Policy = Policy
  (p_kind: string) (p_name: string) (p_namespace: string) (p_tier: string)
  (p_action: string) (policy_index: int) (rule_index: int) (p_trigger: "Policy option")

text \<open>
  \<open>log.policies?.enforced\<close> and \<open>log.policies?.pending\<close> are tested for
  truthiness before use, so both the object and its two lists may be absent.
\<close>

record PolicyHits =
  enforced :: "Policy list option"
  pending :: "Policy list option"

text \<open>
  The destination port is a number in the interface; the code also treats \<open>null\<close>
  and a missing field (\<open>undefined\<close>), which convert to different strings.
\<close>

datatype jsport = PortUndefined | PortNull | PortNum nat

record FlowLog =
  start_time :: string
  end_time :: string
  action :: string
  source_name :: string
  source_namespace :: string
  source_labels :: "string option"
  dest_name :: string
  dest_namespace :: string
  dest_labels :: "string option"
  protocol :: string
  dest_port :: jsport
  reporter :: string
  policies :: "PolicyHits option"
  packets_in :: int
  packets_out :: int
  bytes_in :: int
  bytes_out :: int

section \<open>String helpers of the JavaScript runtime\<close>

text \<open>
  A string is a list of characters. The comparison of two strings with \<open><\<close> and
  \<open>>\<close>, and the order of \<open>sort()\<close> without a comparator, is the lexicographic
  order on the code units; here it is the lexicographic order of lists over the order
  of the characters.
\<close>

text \<open>Decimal rendering of a non-negative integer, as \<open>String(n)\<close> gives it.\<close>

definition digit_char :: "nat \<Rightarrow> char" where
  "digit_char d = ''0123456789'' ! d"

fun string_of_nat :: "nat \<Rightarrow> string" where
  "string_of_nat n =
     (if n < 10 then [digit_char n] else string_of_nat (n div 10) @ [digit_char (n mod 10)])"

declare string_of_nat.simps [simp del]

text \<open>\<open>Array.prototype.join\<close>: the elements separated by \<open>sep\<close>.\<close>

fun join :: "string \<Rightarrow> string list \<Rightarrow> string" where
  "join sep [] = []"
| "join sep [x] = x"
| "join sep (x # y # ys) = x @ sep @ join sep (y # ys)"

text \<open>Inside \<open>join\<close>, \<open>null\<close> and \<open>undefined\<close> become the empty string.\<close>

fun port_join :: "jsport \<Rightarrow> string" where
  "port_join (PortNum n) = string_of_nat n"
| "port_join PortNull = []"
| "port_join PortUndefined = []"

text \<open>Inside a template literal they become the words \<open>null\<close> and \<open>undefined\<close>.\<close>

fun port_template :: "jsport \<Rightarrow> string" where
  "port_template (PortNum n) = string_of_nat n"
| "port_template PortNull = ''null''"
| "port_template PortUndefined = ''undefined''"

section \<open>Flow aggregation in getNamespaceFlowSummary (calico-whisker.js, lines 155-253)\<close>

text \<open>An entry of \<open>flowMap\<close>. A JavaScript \<open>Set\<close> is a duplicate-free list in
  insertion order.\<close>

record Flow =
  source :: string
  sourceNamespace :: string
  destination :: string
  destNamespace :: string
  flow_protocol :: string
  port :: jsport
  sourceAction :: string
  destAction :: string
  packetsIn :: int
  packetsOut :: int
  bytesIn :: int
  bytesOut :: int
  startTime :: string
  endTime :: string
  sourcePolicies :: "string list"
  destPolicies :: "string list"
  enforcedPolicies :: "Policy list"

definition flowKey :: "FlowLog \<Rightarrow> string" where
  "flowKey log = join ''|''
     [source_name log, source_namespace log, dest_name log, dest_namespace log,
      protocol log, port_join (dest_port log), action log]"

definition set_add :: "'a \<Rightarrow> 'a list \<Rightarrow> 'a list" where
  "set_add x xs = (if x \<in> set xs then xs else xs @ [x])"

definition policyName :: "Policy \<Rightarrow> string" where
  "policyName policy = p_name policy @ '' ('' @ p_namespace policy @ '')''"

definition enforcedOf :: "FlowLog \<Rightarrow> Policy list" where
  "enforcedOf log =
     (case policies log of None \<Rightarrow> []
      | Some ph \<Rightarrow> (case enforced ph of None \<Rightarrow> [] | Some ps \<Rightarrow> ps))"

text \<open>One round of the \<open>forEach\<close> over the enforced policies of a log: the triple is
  \<open>(enforcedPolicies, sourcePolicies, destPolicies)\<close>.\<close>

fun collectPolicy ::
  "string \<Rightarrow> Policy \<Rightarrow> Policy list \<times> string list \<times> string list
     \<Rightarrow> Policy list \<times> string list \<times> string list" where
  "collectPolicy rep policy (enf, sp, dp) =
     (enf @ [policy],
      (if rep = ''Src'' then set_add (policyName policy) sp else sp),
      (if rep = ''Src'' then dp
       else if rep = ''Dst'' then set_add (policyName policy) dp else dp))"

definition collectPolicies ::
  "FlowLog \<Rightarrow> Policy list \<times> string list \<times> string list
     \<Rightarrow> Policy list \<times> string list \<times> string list" where
  "collectPolicies log acc = fold (collectPolicy (reporter log)) (enforcedOf log) acc"

text \<open>
  The branch for a key that is already in the map. \<open>actionConflict\<close> is the test
  that guards the concatenation with \<open>+\<close>.
\<close>

definition actionConflict :: "string \<Rightarrow> string \<Rightarrow> bool" where
  "actionConflict existingAction logAction =
     (existingAction \<noteq> ''N/A'' \<and> existingAction \<noteq> logAction)"

definition mergeAction :: "string \<Rightarrow> string \<Rightarrow> string" where
  "mergeAction existingAction logAction =
     (if actionConflict existingAction logAction
      then existingAction @ ''+'' @ logAction
      else logAction)"

definition mergeFlow :: "Flow \<Rightarrow> FlowLog \<Rightarrow> Flow" where
  "mergeFlow existing log =
     (case collectPolicies log
             (enforcedPolicies existing, sourcePolicies existing, destPolicies existing) of
        (enf, sp, dp) \<Rightarrow>
          existing
            \<lparr> sourceAction :=
                (if reporter log = ''Src''
                 then mergeAction (sourceAction existing) (action log)
                 else sourceAction existing),
              destAction :=
                (if reporter log = ''Src'' then destAction existing
                 else if reporter log = ''Dst''
                 then mergeAction (destAction existing) (action log)
                 else destAction existing),
              packetsIn := packetsIn existing + packets_in log,
              packetsOut := packetsOut existing + packets_out log,
              bytesIn := bytesIn existing + bytes_in log,
              bytesOut := bytesOut existing + bytes_out log,
              startTime :=
                (if start_time log < startTime existing then start_time log
                 else startTime existing),
              endTime :=
                (if end_time log > endTime existing then end_time log
                 else endTime existing),
              sourcePolicies := sp,
              destPolicies := dp,
              enforcedPolicies := enf \<rparr>)"

text \<open>The branch for a new key.\<close>

definition newFlow :: "FlowLog \<Rightarrow> Flow" where
  "newFlow log =
     (case collectPolicies log ([], [], []) of
        (enf, sp, dp) \<Rightarrow>
          \<lparr> source = source_name log,
            sourceNamespace = source_namespace log,
            destination = dest_name log,
            destNamespace = dest_namespace log,
            flow_protocol = protocol log,
            port = dest_port log,
            sourceAction = (if reporter log = ''Src'' then action log else ''N/A''),
            destAction = (if reporter log = ''Dst'' then action log else ''N/A''),
            packetsIn = packets_in log,
            packetsOut = packets_out log,
            bytesIn = bytes_in log,
            bytesOut = bytes_out log,
            startTime = start_time log,
            endTime = end_time log,
            sourcePolicies = sp,
            destPolicies = dp,
            enforcedPolicies = enf \<rparr>)"

text \<open>
  \<open>flowMap\<close> is a JavaScript \<open>Map\<close>: an association list in insertion order.
  Changing the value of a present key keeps its place, a new key goes to the end;
  \<open>AList.update\<close> does both.
\<close>

type_synonym flowMap = "(string \<times> Flow) list"

definition processLog :: "FlowLog \<Rightarrow> flowMap \<Rightarrow> flowMap" where
  "processLog log flowMap =
     (case map_of flowMap (flowKey log) of
        Some existing \<Rightarrow> AList.update (flowKey log) (mergeFlow existing log) flowMap
      | None \<Rightarrow> AList.update (flowKey log) (newFlow log) flowMap)"

definition buildFlowMap :: "FlowLog list \<Rightarrow> flowMap" where
  "buildFlowMap logs = fold processLog logs []"

section \<open>The outside world\<close>

text \<open>
  What the services read from outside: the answer of the Whisker backend to the one
  HTTP request of \<open>getFlowLogs\<close>, the outcome of a \<open>kubectl\<close> call, and two
  library functions of the runtime that are not modelled but taken as given
  (\<open>String.prototype.localeCompare\<close> and \<open>new Date(s).getTime()\<close>, whose
  \<open>NaN\<close> is \<open>None\<close>). \<open>fetches\<close> counts the requests sent to the backend.
\<close>

datatype fetchResult =
    FetchItems "FlowLog list"
  | FetchNoItems
  | ConnRefused
  | AxiosError string
  | OtherError string

text \<open>
  What settles the promise of \<open>retrievePolicyDetails\<close> first: the process closes
  with an exit code (null when killed) and its output; the process cannot be started
  and the event \<open>error\<close> says so; the ten-second timer fires; or the call of
  \<open>spawn\<close> itself throws an exception, with a message. Node reports the system
  errors EACCES, EAGAIN, EMFILE, ENFILE and ENOENT by the event \<open>error\<close>; for any
  other system error (E2BIG, ENOMEM, ...) and for an argument that is not a string
  or contains a NUL byte, \<open>spawn\<close> throws at once.
\<close>

datatype kubectlEvent =
    CloseEvent "int option" string
  | ErrorEvent
  | TimeoutEvent
  | SpawnThrows string

record World =
  backend :: fetchResult
  fetches :: nat
  kubeconfigPath :: "string option"
  kubectl :: "string list \<Rightarrow> kubectlEvent"
  localeCompare :: "string \<Rightarrow> string \<Rightarrow> int"
  getTime :: "string \<Rightarrow> int option"

text \<open>A promise settles by resolving to a value or by rejecting with a message; an
  \<open>await\<close> of a rejected promise throws.\<close>

datatype 'a promise = Resolved 'a | Rejected string

definition getFlowLogs :: "World \<Rightarrow> FlowLog list promise \<times> World" where
  "getFlowLogs w =
     ((case backend w of
         FetchItems items \<Rightarrow> Resolved items
       | FetchNoItems \<Rightarrow> Resolved []
       | ConnRefused \<Rightarrow>
           Rejected ''Cannot connect to Calico Whisker. Please ensure port-forward is running.''
       | AxiosError msg \<Rightarrow> Rejected (''Failed to fetch flow logs: '' @ msg)
       | OtherError msg \<Rightarrow> Rejected msg),
      w\<lparr>fetches := Suc (fetches w)\<rparr>)"

section \<open>More helpers of the runtime\<close>

text \<open>
  Characters are bytes; text outside ASCII stands as its UTF-8 encoding. The four
  symbols that the services put into their output:
\<close>

definition emojiCheck :: string where
  "emojiCheck = [CHR 0xE2, CHR 0x9C, CHR 0x85]"

definition emojiAlert :: string where
  "emojiAlert = [CHR 0xF0, CHR 0x9F, CHR 0x9A, CHR 0xA8]"

definition emojiCross :: string where
  "emojiCross = [CHR 0xE2, CHR 0x9D, CHR 0x8C]"

definition arrow :: string where
  "arrow = [CHR 0xE2, CHR 0x86, CHR 0x92]"

text \<open>Truthiness of a string, and of a string that may be null or undefined.\<close>

definition truthy :: "string \<Rightarrow> bool" where
  "truthy s = (s \<noteq> [])"

definition truthyOpt :: "string option \<Rightarrow> bool" where
  "truthyOpt so = (case so of None \<Rightarrow> False | Some s \<Rightarrow> truthy s)"

text \<open>\<open>String.prototype.includes\<close>.\<close>

fun str_includes :: "string \<Rightarrow> string \<Rightarrow> bool" where
  "str_includes [] sub = (sub = [])"
| "str_includes (c # cs) sub = (take (length sub) (c # cs) = sub \<or> str_includes cs sub)"

text \<open>\<open>[...new Set(xs)]\<close>: the first occurrence of every element, in order.\<close>

definition uniq :: "'a list \<Rightarrow> 'a list" where
  "uniq xs = fold set_add xs []"

text \<open>
  \<open>Array.prototype.sort\<close> with a comparator is a stable sort: an element goes
  before the first one that the comparator puts strictly after it.
\<close>

fun insertBy :: "('a \<Rightarrow> 'a \<Rightarrow> int) \<Rightarrow> 'a \<Rightarrow> 'a list \<Rightarrow> 'a list" where
  "insertBy cmp x [] = [x]"
| "insertBy cmp x (y # ys) = (if cmp x y < 0 then x # y # ys else y # insertBy cmp x ys)"

definition sortBy :: "('a \<Rightarrow> 'a \<Rightarrow> int) \<Rightarrow> 'a list \<Rightarrow> 'a list" where
  "sortBy cmp xs = fold (insertBy cmp) xs []"

text \<open>A difference of two times; \<open>NaN\<close> on either side gives \<open>NaN\<close>.\<close>

fun timeDiff :: "int option \<Rightarrow> int option \<Rightarrow> int option" where
  "timeDiff (Some a) (Some b) = Some (a - b)"
| "timeDiff _ _ = None"

section \<open>The summary document of getNamespaceFlowSummary (lines 254-366)\<close>

definition formatAction :: "string \<Rightarrow> string" where
  "formatAction a =
     (if a = ''Allow'' then emojiCheck @ '' Allow''
      else if a = ''Deny'' then emojiAlert @ '' Deny''
      else if a = ''N/A'' then emojiCross @ '' N/A''
      else a)"

definition statusBlocked :: string where
  "statusBlocked = emojiAlert @ '' BLOCKED''"

definition statusAllowed :: string where
  "statusAllowed = emojiCheck @ '' ALLOWED''"

record Endpoint =
  ep_name :: string
  ep_namespace :: string
  ep_action :: string
  ep_policies :: "string list"

record PolicyDetail =
  pd_name :: string
  pd_namespace :: string
  pd_kind :: string
  pd_tier :: string
  pd_action :: string
  pd_policyIndex :: int
  pd_ruleIndex :: int

record Traffic =
  traffic_in :: int
  traffic_out :: int
  traffic_total :: int

record FlowEntry =
  fe_source :: Endpoint
  fe_destination :: Endpoint
  conn_protocol :: string
  conn_port :: jsport
  totalPolicies :: nat
  uniquePolicies :: "string list"
  policyDetails :: "PolicyDetail list"
  traffic_packets :: Traffic
  traffic_bytes :: Traffic
  range_start :: string
  range_end :: string
  range_duration :: "int option"
  status :: string

definition policyDetail :: "Policy \<Rightarrow> PolicyDetail" where
  "policyDetail policy =
     \<lparr> pd_name = p_name policy, pd_namespace = p_namespace policy, pd_kind = p_kind policy,
       pd_tier = p_tier policy, pd_action = p_action policy,
       pd_policyIndex = policy_index policy, pd_ruleIndex = rule_index policy \<rparr>"

definition flowEntry :: "World \<Rightarrow> Flow \<Rightarrow> FlowEntry" where
  "flowEntry w flow =
     \<lparr> fe_source =
         \<lparr> ep_name = source flow, ep_namespace = sourceNamespace flow,
           ep_action = formatAction (sourceAction flow),
           ep_policies = sort (sourcePolicies flow) \<rparr>,
       fe_destination =
         \<lparr> ep_name = destination flow, ep_namespace = destNamespace flow,
           ep_action = formatAction (destAction flow),
           ep_policies = sort (destPolicies flow) \<rparr>,
       conn_protocol = flow_protocol flow,
       conn_port = port flow,
       totalPolicies = length (enforcedPolicies flow),
       uniquePolicies = sort (uniq (map policyName (enforcedPolicies flow))),
       policyDetails = map policyDetail (enforcedPolicies flow),
       traffic_packets =
         \<lparr> traffic_in = packetsIn flow, traffic_out = packetsOut flow,
           traffic_total = packetsIn flow + packetsOut flow \<rparr>,
       traffic_bytes =
         \<lparr> traffic_in = bytesIn flow, traffic_out = bytesOut flow,
           traffic_total = bytesIn flow + bytesOut flow \<rparr>,
       range_start = startTime flow,
       range_end = endTime flow,
       range_duration = timeDiff (getTime w (endTime flow)) (getTime w (startTime flow)),
       status =
         (if sourceAction flow = ''Deny'' \<or> destAction flow = ''Deny''
          then statusBlocked else statusAllowed) \<rparr>"

record SecurityAlerts =
  alert_message :: string
  alert_blockedFlows :: "string list"

record NoFlowsDoc =
  nf_namespace :: string
  nf_error :: string
  nf_totalFlows :: nat
  nf_totalLogEntries :: nat
  nf_flows :: "FlowEntry list"

record FlowSummary =
  fs_namespace :: string
  totalUniqueFlows :: nat
  totalLogEntries :: nat
  window_start :: "string option"
  window_end :: "string option"
  window_duration :: "int option"
  flows_total :: nat
  flows_allowed :: nat
  flows_blocked :: nat
  totalPackets :: int
  totalBytes :: int
  totalPolicyApplications :: nat
  uniquePolicyCount :: nat
  uniquePolicyNames :: "string list"
  tiers :: "string list"
  kinds :: "string list"
  flows :: "FlowEntry list"
  securityAlerts :: "SecurityAlerts option"

datatype SummaryDoc = NoFlows NoFlowsDoc | Summary FlowSummary

definition pdName :: "PolicyDetail \<Rightarrow> string" where
  "pdName p = pd_name p @ '' ('' @ pd_namespace p @ '')''"

definition blockedFlowLine :: "FlowEntry \<Rightarrow> string" where
  "blockedFlowLine flow =
     ep_name (fe_source flow) @ '' '' @ arrow @ '' '' @ ep_name (fe_destination flow)
       @ '':'' @ port_template (conn_port flow)"

definition sortedFlows :: "World \<Rightarrow> flowMap \<Rightarrow> Flow list" where
  "sortedFlows w flowMap =
     sortBy (\<lambda>a b. localeCompare w (startTime a) (startTime b)) (map snd flowMap)"

text \<open>The part of \<open>getNamespaceFlowSummary\<close> after the flow map is built.\<close>

definition summarize :: "World \<Rightarrow> string \<Rightarrow> FlowLog list \<Rightarrow> flowMap \<Rightarrow> FlowSummary" where
  "summarize w namespace namespaceLogs flowMap =
     (let flowList = map (flowEntry w) (sortedFlows w flowMap);
          sortedList = sortedFlows w flowMap;
          earliestTime = (case sortedList of [] \<Rightarrow> None | _ \<Rightarrow> Some (startTime (hd sortedList)));
          latestTime = (case sortedList of [] \<Rightarrow> None | _ \<Rightarrow> Some (endTime (last sortedList)));
          blockedFlows = filter (\<lambda>flow. str_includes (status flow) ''BLOCKED'') flowList;
          allowedFlows = filter (\<lambda>flow. str_includes (status flow) ''ALLOWED'') flowList;
          allPolicies = concat (map policyDetails flowList);
          names = uniq (map pdName allPolicies);
          policyTiers = filter truthy (uniq (map pd_tier allPolicies));
          policyKinds = filter truthy (uniq (map pd_kind allPolicies))
      in \<lparr> fs_namespace = namespace,
           totalUniqueFlows = length flowMap,
           totalLogEntries = length namespaceLogs,
           window_start = earliestTime,
           window_end = latestTime,
           window_duration =
             (case (earliestTime, latestTime) of
                (Some e, Some l) \<Rightarrow>
                  (if truthy e \<and> truthy l then timeDiff (getTime w l) (getTime w e) else None)
              | _ \<Rightarrow> None),
           flows_total = length flowList,
           flows_allowed = length allowedFlows,
           flows_blocked = length blockedFlows,
           totalPackets = fold (\<lambda>flow acc. acc + traffic_total (traffic_packets flow)) flowList 0,
           totalBytes = fold (\<lambda>flow acc. acc + traffic_total (traffic_bytes flow)) flowList 0,
           totalPolicyApplications = length allPolicies,
           uniquePolicyCount = length names,
           uniquePolicyNames = sort names,
           tiers = sort policyTiers,
           kinds = sort policyKinds,
           flows = flowList,
           securityAlerts =
             (if length blockedFlows > 0
              then Some \<lparr> alert_message =
                            emojiAlert @ '' '' @ string_of_nat (length blockedFlows)
                              @ '' blocked flow(s) detected - immediate attention required!'',
                          alert_blockedFlows = map blockedFlowLine blockedFlows \<rparr>
              else None) \<rparr>)"

definition getNamespaceFlowSummary :: "string \<Rightarrow> World \<Rightarrow> SummaryDoc promise \<times> World" where
  "getNamespaceFlowSummary namespace w =
     (case getFlowLogs w of
        (Rejected msg, w') \<Rightarrow> (Rejected (''Failed to generate flow summary: '' @ msg), w')
      | (Resolved allLogs, w') \<Rightarrow>
          (let namespaceLogs =
                 filter (\<lambda>log. source_namespace log = namespace \<or> dest_namespace log = namespace)
                   allLogs
           in if length namespaceLogs = 0
              then (Resolved (NoFlows
                      \<lparr> nf_namespace = namespace,
                        nf_error = ''No flow logs found for namespace: '' @ namespace,
                        nf_totalFlows = 0, nf_totalLogEntries = 0, nf_flows = [] \<rparr>), w')
              else (Resolved (Summary
                      (summarize w' namespace namespaceLogs (buildFlowMap namespaceLogs))), w')))"

section \<open>retrievePolicyDetails (calico-whisker.js, lines 601-654)\<close>

text \<open>
  The white space and the line terminators of ECMAScript, each in UTF-8: U+0009 to
  U+000D, U+0020, U+00A0, U+1680, U+2000 to U+200A, U+2028, U+2029, U+202F, U+205F,
  U+3000 and U+FEFF.
\<close>

definition whiteSpace :: "string list" where
  "whiteSpace =
     [[CHR 0x09], [CHR 0x0A], [CHR 0x0B], [CHR 0x0C], [CHR 0x0D], [CHR 0x20],
      [CHR 0xC2, CHR 0xA0], [CHR 0xE1, CHR 0x9A, CHR 0x80],
      [CHR 0xE2, CHR 0x80, CHR 0x80], [CHR 0xE2, CHR 0x80, CHR 0x81],
      [CHR 0xE2, CHR 0x80, CHR 0x82], [CHR 0xE2, CHR 0x80, CHR 0x83],
      [CHR 0xE2, CHR 0x80, CHR 0x84], [CHR 0xE2, CHR 0x80, CHR 0x85],
      [CHR 0xE2, CHR 0x80, CHR 0x86], [CHR 0xE2, CHR 0x80, CHR 0x87],
      [CHR 0xE2, CHR 0x80, CHR 0x88], [CHR 0xE2, CHR 0x80, CHR 0x89],
      [CHR 0xE2, CHR 0x80, CHR 0x8A], [CHR 0xE2, CHR 0x80, CHR 0xA8],
      [CHR 0xE2, CHR 0x80, CHR 0xA9], [CHR 0xE2, CHR 0x80, CHR 0xAF],
      [CHR 0xE2, CHR 0x81, CHR 0x9F], [CHR 0xE3, CHR 0x80, CHR 0x80],
      [CHR 0xEF, CHR 0xBB, CHR 0xBF]]"

text \<open>
  \<open>dropSpaces spaces s\<close> takes from the front of \<open>s\<close> every leading occurrence of one
  of the byte sequences \<open>spaces\<close>.
\<close>

function dropSpaces :: "string list \<Rightarrow> string \<Rightarrow> string" where
  "dropSpaces spaces s =
     (case find (\<lambda>sp. sp \<noteq> [] \<and> take (length sp) s = sp) spaces of
        None \<Rightarrow> s
      | Some sp \<Rightarrow> dropSpaces spaces (drop (length sp) s))"
  by pat_completeness auto

termination
proof (relation "measure (\<lambda>(spaces, s). length s)")
  show "wf (measure (\<lambda>(spaces, s). length s))" by simp
next
  fix spaces :: "string list" and s sp :: string
  assume "find (\<lambda>sp. sp \<noteq> [] \<and> take (length sp) s = sp) spaces = Some sp"
  then have "sp \<noteq> []" and "take (length sp) s = sp"
    by (auto simp add: find_Some_iff)
  then have "0 < length sp" and "s \<noteq> []" by auto
  then show "((spaces, drop (length sp) s), (spaces, s)) \<in> measure (\<lambda>(spaces, s). length s)"
    by simp
qed

declare dropSpaces.simps [simp del]

text \<open>\<open>String.prototype.trimStart\<close>, \<open>trimEnd\<close> and \<open>trim\<close>.\<close>

definition trimStart :: "string \<Rightarrow> string" where
  "trimStart s = dropSpaces whiteSpace s"

definition trimEnd :: "string \<Rightarrow> string" where
  "trimEnd s = rev (dropSpaces (map rev whiteSpace) (rev s))"

definition trim :: "string \<Rightarrow> string" where
  "trim s = trimEnd (trimStart s)"

text \<open>The \<open>switch\<close> on the policy kind; \<open>None\<close> is the \<open>default\<close> branch.\<close>

definition resourceType :: "string \<Rightarrow> string option" where
  "resourceType policyKind =
     (if policyKind = ''CalicoNetworkPolicy'' then Some ''caliconetworkpolicy''
      else if policyKind = ''NetworkPolicy'' then Some ''networkpolicy''
      else if policyKind = ''GlobalNetworkPolicy'' then Some ''globalnetworkpolicy''
      else None)"

definition kubectlArgs :: "World \<Rightarrow> string \<Rightarrow> string \<Rightarrow> string \<Rightarrow> string \<Rightarrow> string list" where
  "kubectlArgs w rt policyName' policyNamespace policyKind =
     (case kubeconfigPath w of
        Some path \<Rightarrow> if truthy path then [''--kubeconfig'', path] else []
      | None \<Rightarrow> [])
     @ [''get'', rt, policyName', ''-o'', ''yaml'']
     @ (if truthy policyNamespace \<and> policyKind \<noteq> ''GlobalNetworkPolicy''
        then [''-n'', policyNamespace] else [])"

text \<open>
  The executor of the promise takes \<open>resolve\<close> alone, no \<open>reject\<close>, and calls
  it with \<open>null\<close> in the default branch, in the \<open>error\<close> handler, in the timer
  and on a non-zero exit, and with the trimmed output on exit code 0. Only the first
  call settles the promise. The call of \<open>spawn\<close> stands in the executor without a
  \<open>try\<close>: an exception that it throws leaves the executor, and the promise rejects
  with it.
\<close>

definition retrievePolicyDetails ::
  "World \<Rightarrow> string \<Rightarrow> string \<Rightarrow> string \<Rightarrow> string option promise" where
  "retrievePolicyDetails w policyName' policyNamespace policyKind =
     (case resourceType policyKind of
        None \<Rightarrow> Resolved None
      | Some rt \<Rightarrow>
          (case kubectl w (kubectlArgs w rt policyName' policyNamespace policyKind) of
             CloseEvent code stdout \<Rightarrow>
               (if code = Some 0 then Resolved (Some (trim stdout)) else Resolved None)
           | ErrorEvent \<Rightarrow> Resolved None
           | TimeoutEvent \<Rightarrow> Resolved None
           | SpawnThrows msg \<Rightarrow> Rejected msg))"

section \<open>analyzeBlockedFlows (calico-whisker.js, lines 482-600)\<close>

record BlockingPolicy =
  triggerPolicy :: Policy
  policyYaml :: "string option"
  bp_error :: "string option"
  blockingReason :: string

definition pendingReason :: "Policy \<Rightarrow> string" where
  "pendingReason pendingPolicy =
     (if p_action pendingPolicy = ''Deny'' then ''Explicit deny rule''
      else ''End of tier default deny'')"

text \<open>The body of the \<open>try\<close> and of the \<open>catch\<close> around one policy lookup; a
  field \<open>error\<close> that is not set is \<open>None\<close>.\<close>

definition lookupEntry :: "World \<Rightarrow> Policy \<Rightarrow> string \<Rightarrow> BlockingPolicy" where
  "lookupEntry w trig reason =
     (case retrievePolicyDetails w (p_name trig) (p_namespace trig) (p_kind trig) of
        Resolved details \<Rightarrow>
          \<lparr> triggerPolicy = trig, policyYaml = details, bp_error = None,
            blockingReason = reason \<rparr>
      | Rejected msg \<Rightarrow>
          \<lparr> triggerPolicy = trig, policyYaml = None,
            bp_error = Some (''Failed to retrieve policy: '' @ msg),
            blockingReason = reason \<rparr>)"

text \<open>One round of the loop over \<open>log.policies.pending\<close>.\<close>

definition pendingStep :: "World \<Rightarrow> Policy \<Rightarrow> BlockingPolicy list \<Rightarrow> BlockingPolicy list" where
  "pendingStep w pendingPolicy blockingPolicies =
     (case p_trigger pendingPolicy of
        None \<Rightarrow> blockingPolicies
      | Some trig \<Rightarrow>
          if truthy (p_name trig)
          then blockingPolicies @ [lookupEntry w trig (pendingReason pendingPolicy)]
          else blockingPolicies)"

text \<open>One round of the loop over \<open>log.policies.enforced\<close>.\<close>

definition enforcedStep :: "World \<Rightarrow> Policy \<Rightarrow> BlockingPolicy list \<Rightarrow> BlockingPolicy list" where
  "enforcedStep w enforcedPolicy blockingPolicies =
     (case p_trigger enforcedPolicy of
        None \<Rightarrow> blockingPolicies
      | Some trig \<Rightarrow>
          if p_action enforcedPolicy = ''Deny'' \<and> truthy (p_name trig)
          then blockingPolicies @ [lookupEntry w trig ''Enforced deny rule'']
          else blockingPolicies)"

definition pendingOf :: "FlowLog \<Rightarrow> Policy list" where
  "pendingOf log =
     (case policies log of None \<Rightarrow> []
      | Some ph \<Rightarrow> (case pending ph of None \<Rightarrow> [] | Some ps \<Rightarrow> ps))"

definition blockingPoliciesOf :: "World \<Rightarrow> FlowLog \<Rightarrow> BlockingPolicy list" where
  "blockingPoliciesOf w log =
     fold (enforcedStep w) (enforcedOf log) (fold (pendingStep w) (pendingOf log) [])"

record BlockedFlow =
  bf_source :: string
  bf_destination :: string
  bf_protocol :: string
  bf_port :: jsport
  bf_action :: string
  bf_reporter :: string
  bf_timeRange :: string
  bf_packetsIn :: int
  bf_packetsOut :: int
  bf_bytesIn :: int
  bf_bytesOut :: int
  blockingPolicies :: "BlockingPolicy list"
  totalBlockingPolicies :: nat
  recommendation :: string

definition analyzeLog :: "World \<Rightarrow> FlowLog \<Rightarrow> BlockedFlow" where
  "analyzeLog w log =
     (let bps = blockingPoliciesOf w log
      in \<lparr> bf_source = source_name log @ '' ('' @ source_namespace log @ '')'',
           bf_destination = dest_name log @ '' ('' @ dest_namespace log @ '')'',
           bf_protocol = protocol log,
           bf_port = dest_port log,
           bf_action = action log,
           bf_reporter = reporter log,
           bf_timeRange = start_time log @ '' to '' @ end_time log,
           bf_packetsIn = packets_in log,
           bf_packetsOut = packets_out log,
           bf_bytesIn = bytes_in log,
           bf_bytesOut = bytes_out log,
           blockingPolicies = bps,
           totalBlockingPolicies = length bps,
           recommendation =
             (if length bps > 0
              then ''Review the identified policies to understand why traffic is being blocked. Consider modifying the policy rules if this traffic should be allowed.''
              else ''No specific blocking policies identified. This may be due to default deny behavior or policy ordering.'') \<rparr>)"

record NoBlockedDoc =
  nb_namespace :: string
  nb_message :: string
  nb_blockedFlows :: "BlockedFlow list"

record BlockedSummary =
  bs_namespace :: string
  totalBlockedFlows :: nat
  uniqueBlockedConnections :: nat
  bs_window_start :: "int option"
  bs_window_end :: "int option"
  blockedFlows :: "BlockedFlow list"
  insights_message :: string
  recommendations :: "string list"

datatype AnalysisDoc = NoBlockedFlows NoBlockedDoc | BlockedAnalysis BlockedSummary

text \<open>\<open>Math.min\<close> and \<open>Math.max\<close> over times: one \<open>NaN\<close> makes the result
  \<open>NaN\<close>. The list is not empty where they are called.\<close>

fun combineTimes :: "(int \<Rightarrow> int \<Rightarrow> int) \<Rightarrow> int option list \<Rightarrow> int option" where
  "combineTimes f [] = None"
| "combineTimes f [t] = t"
| "combineTimes f (t # u # ts) =
     (case (t, combineTimes f (u # ts)) of (Some a, Some b) \<Rightarrow> Some (f a b) | _ \<Rightarrow> None)"

definition connectionName :: "FlowLog \<Rightarrow> string" where
  "connectionName log =
     source_name log @ arrow @ dest_name log @ '':'' @ port_template (dest_port log)"

definition namespaceOrAll :: "string option \<Rightarrow> string" where
  "namespaceOrAll namespace =
     (case namespace of None \<Rightarrow> ''all'' | Some ns \<Rightarrow> if truthy ns then ns else ''all'')"

text \<open>The records that \<open>analyzeBlockedFlows\<close> looks at.\<close>

definition blockedLogsOf :: "string option \<Rightarrow> FlowLog list \<Rightarrow> FlowLog list" where
  "blockedLogsOf namespace allLogs =
     (let blockedLogs = filter (\<lambda>log. action log = ''Deny'') allLogs
      in case namespace of
           None \<Rightarrow> blockedLogs
         | Some ns \<Rightarrow>
             if truthy ns
             then filter (\<lambda>log. source_namespace log = ns \<or> dest_namespace log = ns) blockedLogs
             else blockedLogs)"

definition analyzeBlockedFlows :: "string option \<Rightarrow> World \<Rightarrow> AnalysisDoc promise \<times> World" where
  "analyzeBlockedFlows namespace w =
     (case getFlowLogs w of
        (Rejected msg, w') \<Rightarrow> (Rejected (''Failed to analyze blocked flows: '' @ msg), w')
      | (Resolved allLogs, w') \<Rightarrow>
          (let blockedLogs = blockedLogsOf namespace allLogs
           in if length blockedLogs = 0
              then (Resolved (NoBlockedFlows
                      \<lparr> nb_namespace = namespaceOrAll namespace,
                        nb_message = ''No blocked flows found'',
                        nb_blockedFlows = [] \<rparr>), w')
              else (Resolved (BlockedAnalysis
                      \<lparr> bs_namespace = namespaceOrAll namespace,
                        totalBlockedFlows = length blockedLogs,
                        uniqueBlockedConnections = length (uniq (map connectionName blockedLogs)),
                        bs_window_start =
                          combineTimes min (map (\<lambda>log. getTime w' (start_time log)) blockedLogs),
                        bs_window_end =
                          combineTimes max (map (\<lambda>log. getTime w' (end_time log)) blockedLogs),
                        blockedFlows = map (analyzeLog w') blockedLogs,
                        insights_message =
                          emojiAlert @ '' '' @ string_of_nat (length blockedLogs)
                            @ '' blocked flow(s) detected'',
                        recommendations =
                          [''Review each blocking policy to ensure it aligns with your security requirements'',
                           ''Consider if any blocked flows represent legitimate traffic that should be allowed'',
                           ''Verify that policy ordering and tier configuration are correct'',
                           ''Monitor for patterns that might indicate security threats or misconfigurations''] \<rparr>),
                    w')))"

section \<open>The policy drafts of log-filter.js\<close>

subsection \<open>String functions\<close>

text \<open>\<open>String.prototype.split\<close> at a one-character separator: the pieces between
  the separators, so one piece more than there are separators.\<close>

fun splitOn :: "char \<Rightarrow> string \<Rightarrow> string list" where
  "splitOn sep [] = [[]]"
| "splitOn sep (c # cs) =
     (if c = sep then [] # splitOn sep cs
      else (case splitOn sep cs of [] \<Rightarrow> [[c]] | piece # pieces \<Rightarrow> (c # piece) # pieces))"

text \<open>\<open>toUpperCase\<close> and \<open>toLowerCase\<close>, for the letters of ASCII.\<close>

definition toUpperCase :: "string \<Rightarrow> string" where
  "toUpperCase s =
     map (\<lambda>c. case map_of (zip ''abcdefghijklmnopqrstuvwxyz'' ''ABCDEFGHIJKLMNOPQRSTUVWXYZ'') c of
                 Some u \<Rightarrow> u | None \<Rightarrow> c) s"

definition toLowerCase :: "string \<Rightarrow> string" where
  "toLowerCase s =
     map (\<lambda>c. case map_of (zip ''ABCDEFGHIJKLMNOPQRSTUVWXYZ'' ''abcdefghijklmnopqrstuvwxyz'') c of
                 Some l \<Rightarrow> l | None \<Rightarrow> c) s"

text \<open>\<open>replace(/[^a-z0-9]/g, '-')\<close>.\<close>

definition replaceNonAlnum :: "string \<Rightarrow> string" where
  "replaceNonAlnum s =
     map (\<lambda>c. if c \<in> set ''abcdefghijklmnopqrstuvwxyz0123456789'' then c else CHR ''-'') s"

text \<open>
  \<open>parseInt\<close> without a radix: white space, a sign, the prefix \<open>0x\<close> for base 16,
  then the longest run of digits; \<open>NaN\<close> (here \<open>None\<close>) if there is no digit.
\<close>

definition digitValue :: "char \<Rightarrow> nat option" where
  "digitValue c =
     map_of
       [(CHR ''0'', 0), (CHR ''1'', 1), (CHR ''2'', 2), (CHR ''3'', 3), (CHR ''4'', 4),
        (CHR ''5'', 5), (CHR ''6'', 6), (CHR ''7'', 7), (CHR ''8'', 8), (CHR ''9'', 9),
        (CHR ''a'', 10), (CHR ''b'', 11), (CHR ''c'', 12), (CHR ''d'', 13), (CHR ''e'', 14),
        (CHR ''f'', 15), (CHR ''A'', 10), (CHR ''B'', 11), (CHR ''C'', 12), (CHR ''D'', 13),
        (CHR ''E'', 14), (CHR ''F'', 15)] c"

fun parseDigits :: "nat \<Rightarrow> string \<Rightarrow> nat option \<Rightarrow> nat option" where
  "parseDigits radix [] acc = acc"
| "parseDigits radix (c # cs) acc =
     (case digitValue c of
        None \<Rightarrow> acc
      | Some d \<Rightarrow>
          if d < radix
          then parseDigits radix cs (Some ((case acc of None \<Rightarrow> 0 | Some n \<Rightarrow> n) * radix + d))
          else acc)"

definition parseInt :: "string \<Rightarrow> int option" where
  "parseInt s =
     (let s1 = trimStart s;
          negative = (case s1 of c # _ \<Rightarrow> c = CHR ''-'' | [] \<Rightarrow> False);
          s2 = (case s1 of c # cs \<Rightarrow> if c = CHR ''-'' \<or> c = CHR ''+'' then cs else s1 | [] \<Rightarrow> s1);
          hex = (take 2 s2 = ''0x'' \<or> take 2 s2 = ''0X'');
          digits = parseDigits (if hex then 16 else 10) (if hex then drop 2 s2 else s2) None
      in map_option (\<lambda>n. if negative then - int n else int n) digits)"

subsection \<open>aggregateLogsForPolicyGeneration (lines 65-99)\<close>

record AggregatedLog =
  ag_source_name :: string
  ag_source_namespace :: string
  ag_source_labels :: "string option"
  ag_dest_name :: string
  ag_dest_namespace :: string
  ag_dest_labels :: "string option"
  ag_protocol :: string
  ag_dest_port :: jsport
  flow_count :: nat
  total_packets :: int
  total_bytes :: int
  actions :: "string list"

text \<open>A label string that is null, inside a template literal.\<close>

definition labels_template :: "string option \<Rightarrow> string" where
  "labels_template labels = (case labels of None \<Rightarrow> ''null'' | Some ls \<Rightarrow> ls)"

definition aggregationKey :: "FlowLog \<Rightarrow> string" where
  "aggregationKey log =
     source_name log @ ''|'' @ source_namespace log @ ''|'' @ labels_template (source_labels log)
       @ ''|'' @ dest_name log @ ''|'' @ dest_namespace log @ ''|''
       @ labels_template (dest_labels log) @ ''|'' @ protocol log @ ''|''
       @ port_template (dest_port log)"

definition emptyAggregate :: "FlowLog \<Rightarrow> AggregatedLog" where
  "emptyAggregate log =
     \<lparr> ag_source_name = source_name log, ag_source_namespace = source_namespace log,
       ag_source_labels = source_labels log, ag_dest_name = dest_name log,
       ag_dest_namespace = dest_namespace log, ag_dest_labels = dest_labels log,
       ag_protocol = protocol log, ag_dest_port = dest_port log,
       flow_count = 0, total_packets = 0, total_bytes = 0, actions = [] \<rparr>"

definition aggregateStep ::
  "FlowLog \<Rightarrow> (string \<times> AggregatedLog) list \<Rightarrow> (string \<times> AggregatedLog) list" where
  "aggregateStep log aggregationMap =
     (let aggregated =
            (case map_of aggregationMap (aggregationKey log) of
               None \<Rightarrow> emptyAggregate log | Some a \<Rightarrow> a)
      in AList.update (aggregationKey log)
           (aggregated
              \<lparr> flow_count := flow_count aggregated + 1,
                total_packets := total_packets aggregated + (packets_in log + packets_out log),
                total_bytes := total_bytes aggregated + (bytes_in log + bytes_out log),
                actions := set_add (action log) (actions aggregated) \<rparr>)
           aggregationMap)"

text \<open>The namespace comes from the request as it is, so it may be undefined
  (\<open>None\<close>); \<open>===\<close> then holds for no log.\<close>

definition aggregateLogsForPolicyGeneration ::
  "FlowLog list \<Rightarrow> string option \<Rightarrow> AggregatedLog list" where
  "aggregateLogsForPolicyGeneration logs namespace =
     (let namespaceLogs =
            filter (\<lambda>log. Some (source_namespace log) = namespace
                          \<or> Some (dest_namespace log) = namespace) logs
      in map snd (fold aggregateStep namespaceLogs []))"

subsection \<open>generateCalicoNetworkPolicies (lines 100-199)\<close>

fun findLabel :: "string \<Rightarrow> string list \<Rightarrow> string option" where
  "findLabel key [] = None"
| "findLabel key (pair # labelPairs) =
     (case map trim (splitOn (CHR ''='') pair) of
        labelKey # labelValue # _ \<Rightarrow>
          if labelKey = key \<and> truthy labelValue then Some labelValue
          else findLabel key labelPairs
      | _ \<Rightarrow> findLabel key labelPairs)"

definition extractLabelValue :: "string option \<Rightarrow> string \<Rightarrow> string option" where
  "extractLabelValue labels key =
     (case labels of
        None \<Rightarrow> None
      | Some ls \<Rightarrow>
          if \<not> truthy ls then None else findLabel key (map trim (splitOn (CHR ''|'') ls)))"

text \<open>A \<open>Map\<close> from strings to arrays: \<open>get(k).push(v)\<close>, after \<open>set(k, [])\<close> for
  a new key.\<close>

definition groupPush :: "string \<Rightarrow> 'a \<Rightarrow> (string \<times> 'a list) list \<Rightarrow> (string \<times> 'a list) list" where
  "groupPush k v groups =
     (case map_of groups k of
        None \<Rightarrow> AList.update k [v] groups
      | Some vs \<Rightarrow> AList.update k (vs @ [v]) groups)"

definition sourceGroupStep ::
  "string \<Rightarrow> string \<Rightarrow> AggregatedLog \<Rightarrow> (string \<times> AggregatedLog list) list
     \<Rightarrow> (string \<times> AggregatedLog list) list" where
  "sourceGroupStep namespace selectorKey log groups =
     (if ag_source_namespace log = namespace
      then (case extractLabelValue (ag_source_labels log) selectorKey of
              Some selectorValue \<Rightarrow> groupPush selectorValue log groups
            | None \<Rightarrow> groups)
      else groups)"

definition sourceGroups ::
  "AggregatedLog list \<Rightarrow> string \<Rightarrow> string \<Rightarrow> (string \<times> AggregatedLog list) list" where
  "sourceGroups aggregatedLogs namespace selectorKey =
     fold (sourceGroupStep namespace selectorKey) aggregatedLogs []"

definition destKey :: "AggregatedLog \<Rightarrow> string" where
  "destKey flow =
     ag_dest_namespace flow @ ''|'' @ ag_protocol flow @ ''|'' @ port_template (ag_dest_port flow)"

definition destinationGroups :: "AggregatedLog list \<Rightarrow> (string \<times> AggregatedLog list) list" where
  "destinationGroups groupFlows = fold (\<lambda>flow. groupPush (destKey flow) flow) groupFlows []"

record PortSpec =
  ps_protocol :: string
  ps_port :: "int option"

record EgressRule =
  rule_action :: string
  namespaceSelector :: "(string \<times> string) option"
  dest_selector :: "(string \<times> string) option"
  rule_protocol :: string
  rule_ports :: "PortSpec list option"

text \<open>
  The body of \<open>destinationGroups.forEach\<close>. The key is split again at the bars and
  its first three pieces are taken; a piece that is missing is \<open>undefined\<close>, and
  \<open>undefined.toUpperCase()\<close> as well as \<open>destFlows[0].dest_labels\<close> on an empty
  array throw a TypeError.
\<close>

definition egressRule :: "string \<Rightarrow> string \<Rightarrow> string \<times> AggregatedLog list \<Rightarrow> string + EgressRule" where
  "egressRule namespace selectorKey destGroup =
     (case splitOn (CHR ''|'') (fst destGroup) of
        destNs # proto # rest \<Rightarrow>
          (let destPort = (case rest of [] \<Rightarrow> None | p # _ \<Rightarrow> Some p);
               ports =
                 (case destPort of
                    None \<Rightarrow> None
                  | Some p \<Rightarrow>
                      if truthy p \<and> p \<noteq> ''null'' \<and> p \<noteq> ''0''
                      then Some [\<lparr> ps_protocol = toUpperCase proto, ps_port = parseInt p \<rparr>]
                      else None)
           in if destNs \<noteq> namespace
              then Inr \<lparr> rule_action = ''Allow'',
                         namespaceSelector = Some (''kubernetes.io/metadata.name'', destNs),
                         dest_selector = None,
                         rule_protocol = toUpperCase proto,
                         rule_ports = ports \<rparr>
              else (case snd destGroup of
                      [] \<Rightarrow> Inl ''TypeError: destFlows[0] is undefined''
                    | first # _ \<Rightarrow>
                        Inr \<lparr> rule_action = ''Allow'',
                              namespaceSelector = None,
                              dest_selector =
                                (case extractLabelValue (ag_dest_labels first) selectorKey of
                                   Some destSelector \<Rightarrow> Some (selectorKey, destSelector)
                                 | None \<Rightarrow> None),
                              rule_protocol = toUpperCase proto,
                              rule_ports = ports \<rparr>))
      | _ \<Rightarrow> Inl ''TypeError: protocol is undefined'')"

text \<open>A loop whose body may throw: the first exception ends it.\<close>

fun mapResult :: "('a \<Rightarrow> string + 'b) \<Rightarrow> 'a list \<Rightarrow> string + 'b list" where
  "mapResult f [] = Inr []"
| "mapResult f (x # xs) =
     (case f x of
        Inl e \<Rightarrow> Inl e
      | Inr y \<Rightarrow> (case mapResult f xs of Inl e \<Rightarrow> Inl e | Inr ys \<Rightarrow> Inr (y # ys)))"

record PolicyDraft =
  apiVersion :: string
  draft_kind :: string
  metadata_name :: string
  metadata_namespace :: string
  spec_selector :: "string \<times> string"
  spec_types :: "string list"
  egress :: "EgressRule list"

definition policyFor :: "string \<Rightarrow> string \<Rightarrow> string \<times> AggregatedLog list \<Rightarrow> string + PolicyDraft" where
  "policyFor namespace selectorKey sourceGroup =
     (case mapResult (egressRule namespace selectorKey) (destinationGroups (snd sourceGroup)) of
        Inl e \<Rightarrow> Inl e
      | Inr egressRules \<Rightarrow>
          Inr \<lparr> apiVersion = ''projectcalico.org/v3'',
                draft_kind = ''NetworkPolicy'',
                metadata_name =
                  ''allow-'' @ replaceNonAlnum (toLowerCase (fst sourceGroup)) @ ''-egress'',
                metadata_namespace = namespace,
                spec_selector = (selectorKey, fst sourceGroup),
                spec_types = [''Egress''],
                egress = egressRules \<rparr>)"

definition generateCalicoNetworkPolicies ::
  "AggregatedLog list \<Rightarrow> string \<Rightarrow> string \<Rightarrow> string + PolicyDraft list" where
  "generateCalicoNetworkPolicies aggregatedLogs namespace selectorKey =
     mapResult (policyFor namespace selectorKey) (sourceGroups aggregatedLogs namespace selectorKey)"

section \<open>The request handlers of the server\<close>

text \<open>The arguments of a tool call; a parameter that the caller left out is
  \<open>None\<close>.\<close>

record ToolArgs =
  arg_namespace :: "string option"
  arg_selectorKey :: "string option"

record PolicyData =
  pg_namespace :: "string option"
  pg_selectorKey :: "string option"
  aggregatedFlows :: "AggregatedLog list"
  pg_totalUniqueFlows :: nat
  analysisNote :: string

text \<open>The text of a response: a plain message, or a document that the handler or
  the service has serialised.\<close>

datatype ToolText = Message string | SummaryText SummaryDoc | PolicyDataText PolicyData

definition selectorKeyRequired :: string where
  "selectorKeyRequired =
     ''Error: selectorKey is required. Please provide a label key to use for workload grouping (e.g., ''
       @ [CHR 0x22] @ ''app'' @ [CHR 0x22] @ '', '' @ [CHR 0x22] @ ''service'' @ [CHR 0x22]
       @ '', '' @ [CHR 0x22] @ ''component'' @ [CHR 0x22] @ '').''"

definition handleGenerateNetworkPolicies :: "ToolArgs \<Rightarrow> World \<Rightarrow> ToolText promise \<times> World" where
  "handleGenerateNetworkPolicies args w =
     (if \<not> truthyOpt (arg_selectorKey args)
      then (Resolved (Message selectorKeyRequired), w)
      else (case getFlowLogs w of
              (Rejected msg, w') \<Rightarrow> (Rejected msg, w')
            | (Resolved logs, w') \<Rightarrow>
                (let aggregatedLogs = aggregateLogsForPolicyGeneration logs (arg_namespace args)
                 in (Resolved (PolicyDataText
                       \<lparr> pg_namespace = arg_namespace args,
                         pg_selectorKey = arg_selectorKey args,
                         aggregatedFlows = aggregatedLogs,
                         pg_totalUniqueFlows = length aggregatedLogs,
                         analysisNote = ''Use this aggregated data to manually create network policies based on observed traffic patterns'' \<rparr>),
                     w'))))"

definition handleGetNamespaceFlowSummary :: "ToolArgs \<Rightarrow> World \<Rightarrow> ToolText promise \<times> World" where
  "handleGetNamespaceFlowSummary args w =
     (if \<not> truthyOpt (arg_namespace args)
      then (Resolved (Message ''Error: namespace parameter is required''), w)
      else (case arg_namespace args of
              None \<Rightarrow> (Resolved (Message ''Error: namespace parameter is required''), w)
            | Some namespace \<Rightarrow>
                (case getNamespaceFlowSummary namespace w of
                   (Resolved summary, w') \<Rightarrow> (Resolved (SummaryText summary), w')
                 | (Rejected msg, w') \<Rightarrow>
                     (Resolved (Message (''Error generating flow summary for namespace ''
                                  @ namespace @ '': '' @ msg)), w'))))"

section \<open>Notions used to state the properties\<close>

text \<open>
  What an entry of the flow map says apart from the order of its lists: the four
  counters, the time window, the two side actions, the two policy sets and the
  enforced policies as a multiset.
\<close>

type_synonym flowView =
  "(int \<times> int \<times> int \<times> int) \<times> (string \<times> string) \<times> (string \<times> string)
     \<times> (string set \<times> string set) \<times> Policy multiset"

definition flowView :: "Flow \<Rightarrow> flowView" where
  "flowView f =
     ((packetsIn f, packetsOut f, bytesIn f, bytesOut f),
      (startTime f, endTime f),
      (sourceAction f, destAction f),
      (set (sourcePolicies f), set (destPolicies f)),
      mset (enforcedPolicies f))"

text \<open>The flow map as a set of keys with the views of their entries.\<close>

definition flowSet :: "flowMap \<Rightarrow> (string \<times> flowView) set" where
  "flowSet fm = (\<lambda>(k, f). (k, flowView f)) ` set fm"

definition flowViews :: "flowMap \<Rightarrow> (string \<rightharpoonup> flowView)" where
  "flowViews fm = map_option flowView \<circ> map_of fm"

text \<open>The effect of \<open>mergeFlow\<close> and of \<open>processLog\<close> on views.\<close>

definition viewMerge :: "flowView \<Rightarrow> FlowLog \<Rightarrow> flowView" where
  "viewMerge v log =
     (case v of ((pi, po, bi, bo), (st, en), (sa, da), (sp, dp), enf) \<Rightarrow>
        ((pi + packets_in log, po + packets_out log, bi + bytes_in log, bo + bytes_out log),
         (min (start_time log) st, max en (end_time log)),
         ((if reporter log = ''Src'' then mergeAction sa (action log) else sa),
          (if reporter log = ''Src'' then da
           else if reporter log = ''Dst'' then mergeAction da (action log) else da)),
         (sp \<union> (if reporter log = ''Src'' then policyName ` set (enforcedOf log) else {}),
          dp \<union> (if reporter log = ''Src'' then {}
                else if reporter log = ''Dst'' then policyName ` set (enforcedOf log) else {})),
         enf + mset (enforcedOf log)))"

definition viewStep :: "FlowLog \<Rightarrow> (string \<rightharpoonup> flowView) \<Rightarrow> (string \<rightharpoonup> flowView)" where
  "viewStep log m =
     m(flowKey log \<mapsto>
        (case m (flowKey log) of None \<Rightarrow> flowView (newFlow log) | Some v \<Rightarrow> viewMerge v log))"

text \<open>The view without the two side actions, and the effect of \<open>mergeFlow\<close> and
  \<open>processLog\<close> on it.\<close>

type_synonym coreView =
  "(int \<times> int \<times> int \<times> int) \<times> (string \<times> string) \<times> (string set \<times> string set)
     \<times> Policy multiset"

definition coreOf :: "flowView \<Rightarrow> coreView" where
  "coreOf v = (case v of (counters, window, sideActions, policySets, enf) \<Rightarrow>
                 (counters, window, policySets, enf))"

definition coreSet :: "flowMap \<Rightarrow> (string \<times> coreView) set" where
  "coreSet fm = (\<lambda>(k, f). (k, coreOf (flowView f))) ` set fm"

definition coreMerge :: "coreView \<Rightarrow> FlowLog \<Rightarrow> coreView" where
  "coreMerge c log =
     (case c of ((pi, po, bi, bo), (st, en), (sp, dp), enf) \<Rightarrow>
        ((pi + packets_in log, po + packets_out log, bi + bytes_in log, bo + bytes_out log),
         (min (start_time log) st, max en (end_time log)),
         (sp \<union> (if reporter log = ''Src'' then policyName ` set (enforcedOf log) else {}),
          dp \<union> (if reporter log = ''Src'' then {}
                else if reporter log = ''Dst'' then policyName ` set (enforcedOf log) else {})),
         enf + mset (enforcedOf log)))"

definition coreStep :: "FlowLog \<Rightarrow> (string \<rightharpoonup> coreView) \<Rightarrow> (string \<rightharpoonup> coreView)" where
  "coreStep log m =
     m(flowKey log \<mapsto>
        (case m (flowKey log) of
           None \<Rightarrow> coreOf (flowView (newFlow log))
         | Some c \<Rightarrow> coreMerge c log))"

text \<open>A side action is the sentinel or the given action.\<close>

definition sideActionsOk :: "Flow \<Rightarrow> string \<Rightarrow> bool" where
  "sideActionsOk f a =
     ((sourceAction f = ''N/A'' \<or> sourceAction f = a)
      \<and> (destAction f = ''N/A'' \<or> destAction f = a))"

definition plusFree :: "string \<Rightarrow> bool" where
  "plusFree s = (CHR ''+'' \<notin> set s)"

definition barFree :: "string \<Rightarrow> bool" where
  "barFree s = (CHR ''|'' \<notin> set s)"

text \<open>The pending hits that have a trigger with a name, each with its trigger, and
  the enforced hits that deny and have one.\<close>

definition pendingHits :: "Policy list \<Rightarrow> (Policy \<times> Policy) list" where
  "pendingHits ps =
     concat (map (\<lambda>p. case p_trigger p of
                        None \<Rightarrow> []
                      | Some t \<Rightarrow> if truthy (p_name t) then [(p, t)] else []) ps)"

definition enforcedHits :: "Policy list \<Rightarrow> (Policy \<times> Policy) list" where
  "enforcedHits ps =
     concat (map (\<lambda>p. case p_trigger p of
                        None \<Rightarrow> []
                      | Some t \<Rightarrow>
                          if p_action p = ''Deny'' \<and> truthy (p_name t) then [(p, t)] else []) ps)"

text \<open>
  The two ways in which the lookup of a trigger fails. It fails silently: the kind is
  not in the table, or \<open>kubectl\<close> ends with the event \<open>error\<close>, with the timeout
  or with an exit code other than 0. Or it fails with an exception: \<open>spawn\<close> throws,
  with the given message.
\<close>

fun silentEvent :: "kubectlEvent \<Rightarrow> bool" where
  "silentEvent (CloseEvent code out) = (code \<noteq> Some 0)"
| "silentEvent ErrorEvent = True"
| "silentEvent TimeoutEvent = True"
| "silentEvent (SpawnThrows msg) = False"

definition failsSilently :: "World \<Rightarrow> Policy \<Rightarrow> bool" where
  "failsSilently w trig =
     (case resourceType (p_kind trig) of
        None \<Rightarrow> True
      | Some rt \<Rightarrow>
          silentEvent (kubectl w (kubectlArgs w rt (p_name trig) (p_namespace trig) (p_kind trig))))"

definition failsThrowing :: "World \<Rightarrow> Policy \<Rightarrow> string \<Rightarrow> bool" where
  "failsThrowing w trig msg =
     (case resourceType (p_kind trig) of
        None \<Rightarrow> False
      | Some rt \<Rightarrow>
          kubectl w (kubectlArgs w rt (p_name trig) (p_namespace trig) (p_kind trig))
            = SpawnThrows msg)"

definition zeroOrNull :: "jsport \<Rightarrow> bool" where
  "zeroOrNull p = (p = PortNum 0 \<or> p = PortNull)"

section \<open>Example inputs\<close>

definition webPolicy :: Policy where
  "webPolicy = Policy ''NetworkPolicy'' ''allow-web'' ''shop'' ''default'' ''Allow'' 0 1 None"

definition denyPolicy :: Policy where
  "denyPolicy = Policy ''NetworkPolicy'' ''deny-db'' ''shop'' ''security'' ''Deny'' 1 0 None"

definition stagedHit :: Policy where
  "stagedHit = Policy ''StagedNetworkPolicy'' ''staged-db'' ''shop'' ''security'' ''Deny'' 2 0
     (Some denyPolicy)"

definition tierEndHit :: Policy where
  "tierEndHit = Policy ''EndOfTier'' ''tier-end'' ''shop'' ''security'' ''Pass'' 3 (- 1)
     (Some webPolicy)"

definition allowSrc :: FlowLog where
  "allowSrc =
     \<lparr> start_time = ''2024-05-01T10:00:00Z'', end_time = ''2024-05-01T10:00:15Z'',
       action = ''Allow'', source_name = ''frontend'', source_namespace = ''shop'',
       source_labels = Some ''app=frontend | tier=web'', dest_name = ''backend'',
       dest_namespace = ''shop'', dest_labels = Some ''app=backend'', protocol = ''tcp'',
       dest_port = PortNum 8080, reporter = ''Src'',
       policies = Some \<lparr> enforced = Some [webPolicy], pending = Some [] \<rparr>,
       packets_in = 10, packets_out = 12, bytes_in = 100, bytes_out = 240 \<rparr>"

definition allowDst :: FlowLog where
  "allowDst =
     allowSrc \<lparr> start_time := ''2024-05-01T09:59:58Z'', end_time := ''2024-05-01T10:00:20Z'',
       reporter := ''Dst'', packets_in := 5, bytes_in := 50 \<rparr>"

definition denySrc :: FlowLog where
  "denySrc =
     allowSrc \<lparr> action := ''Deny'',
       policies := Some \<lparr> enforced = Some [denyPolicy], pending = Some [stagedHit, tierEndHit] \<rparr> \<rparr>"

definition codeUnitCompare :: "string \<Rightarrow> string \<Rightarrow> int" where
  "codeUnitCompare a b = (if a < b then - 1 else if a = b then 0 else 1)"

text \<open>A world in which every \<open>kubectl\<close> call runs into the timeout.\<close>

definition exampleWorld :: World where
  "exampleWorld =
     \<lparr> backend = FetchItems [allowSrc, allowDst, denySrc], fetches = 0,
       kubeconfigPath = None, kubectl = (\<lambda>args. TimeoutEvent),
       localeCompare = codeUnitCompare, getTime = (\<lambda>s. None) \<rparr>"

text \<open>A world in which every call of \<open>spawn\<close> throws.\<close>

definition throwingWorld :: World where
  "throwingWorld = exampleWorld \<lparr> kubectl := (\<lambda>args. SpawnThrows ''spawn E2BIG'') \<rparr>"

text \<open>A world whose backend has seen no denied traffic.\<close>

definition quietWorld :: World where
  "quietWorld = exampleWorld \<lparr> backend := FetchItems [allowSrc, allowDst] \<rparr>"

text \<open>An aggregated flow to port 0 inside the namespace.\<close>

definition portZeroFlow :: AggregatedLog where
  "portZeroFlow =
     \<lparr> ag_source_name = ''frontend'', ag_source_namespace = ''shop'',
       ag_source_labels = Some ''app=frontend'', ag_dest_name = ''backend'',
       ag_dest_namespace = ''shop'', ag_dest_labels = Some ''app=backend'',
       ag_protocol = ''tcp'', ag_dest_port = PortNum 0,
       flow_count = 1, total_packets = 22, total_bytes = 340, actions = [''Allow''] \<rparr>"

text \<open>The example world after its one request, and the summary of namespace
  \<open>shop\<close> there.\<close>

definition fetchedWorld :: World where
  "fetchedWorld = exampleWorld \<lparr> fetches := 1 \<rparr>"

definition exampleSummary :: FlowSummary where
  "exampleSummary =
     summarize fetchedWorld ''shop'' [allowSrc, allowDst, denySrc]
       (buildFlowMap [allowSrc, allowDst, denySrc])"

section \<open>Properties of the flow key\<close>

lemma flowKey_unfold:
  "flowKey log = source_name log @ ''|'' @ source_namespace log @ ''|'' @ dest_name log @ ''|''
     @ dest_namespace log @ ''|'' @ protocol log @ ''|'' @ port_join (dest_port log) @ ''|''
     @ action log"
  by (simp add: flowKey_def)

lemma suffix_after_bar:
  assumes "xs @ CHR ''|'' # a = ys @ CHR ''|'' # b" "CHR ''|'' \<notin> set a" "CHR ''|'' \<notin> set b"
  shows "a = b"
proof -
  let ?P = "\<lambda>c. c \<noteq> CHR ''|''"
  have "rev a @ CHR ''|'' # rev xs = rev b @ CHR ''|'' # rev ys"
    using arg_cong [OF assms(1), of rev] by simp
  then have "takeWhile ?P (rev a @ CHR ''|'' # rev xs) = takeWhile ?P (rev b @ CHR ''|'' # rev ys)"
    by simp
  moreover have "takeWhile ?P (rev a @ CHR ''|'' # rev xs) = rev a"
    using assms(2) by (auto simp add: takeWhile_tail)
  moreover have "takeWhile ?P (rev b @ CHR ''|'' # rev ys) = rev b"
    using assms(3) by (auto simp add: takeWhile_tail)
  ultimately have "rev a = rev b" by simp
  then show ?thesis by simp
qed

lemma flowKey_action:
  assumes "flowKey r1 = flowKey r2" "barFree (action r1)" "barFree (action r2)"
  shows "action r1 = action r2"
proof -
  obtain p1 where p1: "flowKey r1 = p1 @ CHR ''|'' # action r1"
    by (simp add: flowKey_unfold)
  obtain p2 where p2: "flowKey r2 = p2 @ CHR ''|'' # action r2"
    by (simp add: flowKey_unfold)
  from assms(1) have "p1 @ CHR ''|'' # action r1 = p2 @ CHR ''|'' # action r2"
    by (simp only: p1 p2)
  then show ?thesis
    using assms(2,3) unfolding barFree_def by (rule suffix_after_bar)
qed

lemma barFree_Allow_Deny: "a = ''Allow'' \<or> a = ''Deny'' \<Longrightarrow> barFree a"
  by (auto simp add: barFree_def)

section \<open>The flow map\<close>

lemma buildFlowMap_snoc: "buildFlowMap (logs @ [log]) = processLog log (buildFlowMap logs)"
  by (simp add: buildFlowMap_def)

lemma buildFlowMap_Nil: "buildFlowMap [] = []"
  by (simp add: buildFlowMap_def)

lemma distinct_processLog:
  "distinct (map fst fm) \<Longrightarrow> distinct (map fst (processLog log fm))"
  by (simp add: processLog_def distinct_update split: option.splits)

lemma distinct_buildFlowMap: "distinct (map fst (buildFlowMap logs))"
  by (induction logs rule: rev_induct)
     (simp_all add: buildFlowMap_Nil buildFlowMap_snoc distinct_processLog)

lemma keys_processLog: "fst ` set (processLog log fm) = insert (flowKey log) (fst ` set fm)"
  by (simp add: processLog_def dom_update split: option.splits)

lemma keys_buildFlowMap: "fst ` set (buildFlowMap logs) = flowKey ` set logs"
  by (induction logs rule: rev_induct)
     (auto simp add: buildFlowMap_Nil buildFlowMap_snoc keys_processLog)

lemma map_of_processLog:
  "map_of (processLog log fm) =
     (map_of fm)(flowKey log \<mapsto>
        (case map_of fm (flowKey log) of None \<Rightarrow> newFlow log | Some e \<Rightarrow> mergeFlow e log))"
  by (simp add: processLog_def update_conv' split: option.splits)

lemma map_of_key: "map_of fm k = Some e \<Longrightarrow> k \<in> fst ` set fm"
  by (force dest: map_of_SomeD)

section \<open>Order independence\<close>

lemma set_set_add: "set (set_add x xs) = insert x (set xs)"
  by (auto simp add: set_add_def)

lemma fold_collectPolicy:
  "fold (collectPolicy rep) ps (enf, sp, dp) = (enf', sp', dp') \<Longrightarrow>
     enf' = enf @ ps
     \<and> set sp' = set sp \<union> (if rep = ''Src'' then policyName ` set ps else {})
     \<and> set dp' = set dp \<union> (if rep = ''Src'' then {}
                           else if rep = ''Dst'' then policyName ` set ps else {})"
proof (induction ps arbitrary: enf sp dp)
  case Nil
  then show ?case by simp
next
  case (Cons p ps)
  let ?sp = "if rep = ''Src'' then set_add (policyName p) sp else sp"
  let ?dp = "if rep = ''Src'' then dp
             else if rep = ''Dst'' then set_add (policyName p) dp else dp"
  from Cons.prems have "fold (collectPolicy rep) ps (enf @ [p], ?sp, ?dp) = (enf', sp', dp')"
    by simp
  from Cons.IH [OF this] show ?case
    by (auto simp add: set_set_add)
qed

lemma flowView_mergeFlow: "flowView (mergeFlow f log) = viewMerge (flowView f) log"
proof -
  obtain enf sp dp where c: "collectPolicies log
      (enforcedPolicies f, sourcePolicies f, destPolicies f) = (enf, sp, dp)"
    by (cases "collectPolicies log (enforcedPolicies f, sourcePolicies f, destPolicies f)")
  note fold_collectPolicy [OF c [unfolded collectPolicies_def]]
  then show ?thesis
    by (auto simp add: mergeFlow_def c flowView_def viewMerge_def min_def max_def)
qed

lemma flowView_newFlow:
  "flowView (newFlow log) =
     ((packets_in log, packets_out log, bytes_in log, bytes_out log),
      (start_time log, end_time log),
      ((if reporter log = ''Src'' then action log else ''N/A''),
       (if reporter log = ''Dst'' then action log else ''N/A'')),
      ((if reporter log = ''Src'' then policyName ` set (enforcedOf log) else {}),
       (if reporter log = ''Src'' then {}
        else if reporter log = ''Dst'' then policyName ` set (enforcedOf log) else {})),
      mset (enforcedOf log))"
proof -
  obtain enf sp dp where c: "collectPolicies log ([], [], []) = (enf, sp, dp)"
    by (cases "collectPolicies log ([], [], [])")
  note fold_collectPolicy [OF c [unfolded collectPolicies_def]]
  then show ?thesis
    by (auto simp add: newFlow_def c flowView_def)
qed

lemma flowViews_processLog: "flowViews (processLog log fm) = viewStep log (flowViews fm)"
  by (auto simp add: flowViews_def map_of_processLog viewStep_def fun_eq_iff
        flowView_mergeFlow split: option.splits)

lemma flowViews_fold:
  "flowViews (fold processLog logs fm) = fold viewStep logs (flowViews fm)"
  by (induction logs arbitrary: fm) (simp_all add: flowViews_processLog)

lemma flowViews_buildFlowMap: "flowViews (buildFlowMap logs) = fold viewStep logs Map.empty"
  by (simp add: buildFlowMap_def flowViews_fold) (simp add: flowViews_def)

lemma viewMerge_commute:
  assumes "action x = action y"
  shows "viewMerge (viewMerge v x) y = viewMerge (viewMerge v y) x"
  using assms
  by (cases v) (auto simp add: viewMerge_def min.left_commute max.commute max.left_commute
      add_ac Un_ac)

lemma viewMerge_new_commute:
  assumes "action x = action y"
  shows "viewMerge (flowView (newFlow x)) y = viewMerge (flowView (newFlow y)) x"
  using assms
  by (auto simp add: flowView_newFlow viewMerge_def mergeAction_def actionConflict_def
      min.commute max.commute add_ac Un_ac)

lemma viewStep_commute:
  assumes "flowKey x = flowKey y \<Longrightarrow> action x = action y"
  shows "viewStep x \<circ> viewStep y = viewStep y \<circ> viewStep x"
proof (cases "flowKey x = flowKey y")
  case True
  then have a: "action x = action y" by (rule assms)
  show ?thesis
    using True viewMerge_commute [OF a] viewMerge_new_commute [OF a]
    by (auto simp add: viewStep_def fun_eq_iff split: option.splits)
next
  case False
  then show ?thesis
    by (auto simp add: viewStep_def fun_eq_iff split: option.splits)
qed

lemma flowViews_permutation:
  assumes "mset logs = mset logs'" and "\<forall>log\<in>set logs. barFree (action log)"
  shows "flowViews (buildFlowMap logs) = flowViews (buildFlowMap logs')"
proof -
  have "fold viewStep logs = fold viewStep logs'"
  proof (rule fold_multiset_equiv [OF _ assms(1)])
    fix x y
    assume "x \<in> set logs" "y \<in> set logs"
    then have "barFree (action x)" "barFree (action y)" using assms(2) by auto
    then have "flowKey x = flowKey y \<Longrightarrow> action x = action y"
      by (rule flowKey_action [rotated])
    then show "viewStep x \<circ> viewStep y = viewStep y \<circ> viewStep x"
      by (rule viewStep_commute)
  qed
  then show ?thesis by (simp add: flowViews_buildFlowMap)
qed

lemma flowSet_flowViews:
  assumes "distinct (map fst fm)"
  shows "flowSet fm = {(k, v). flowViews fm k = Some v}"
proof -
  have "flowSet fm = {(k, v). \<exists>f. (k, f) \<in> set fm \<and> v = flowView f}"
    by (force simp add: flowSet_def)
  also have "\<dots> = {(k, v). flowViews fm k = Some v}"
    using assms by (auto simp add: flowViews_def)
  finally show ?thesis .
qed

lemma coreOf_viewMerge: "coreOf (viewMerge v log) = coreMerge (coreOf v) log"
  by (auto simp add: coreOf_def viewMerge_def coreMerge_def split: prod.splits)

lemma coreOf_viewStep:
  "map_option coreOf \<circ> viewStep log m = coreStep log (map_option coreOf \<circ> m)"
  by (auto simp add: viewStep_def coreStep_def fun_eq_iff coreOf_viewMerge split: option.splits)

lemma coreOf_fold:
  "map_option coreOf \<circ> fold viewStep logs m = fold coreStep logs (map_option coreOf \<circ> m)"
proof (induction logs arbitrary: m)
  case Nil
  show ?case by simp
next
  case (Cons l logs)
  have "map_option coreOf \<circ> fold viewStep (l # logs) m
      = map_option coreOf \<circ> fold viewStep logs (viewStep l m)"
    by (simp only: fold_simps comp_apply)
  also have "\<dots> = fold coreStep logs (map_option coreOf \<circ> viewStep l m)"
    by (rule Cons.IH)
  also have "\<dots> = fold coreStep logs (coreStep l (map_option coreOf \<circ> m))"
    by (simp only: coreOf_viewStep)
  also have "\<dots> = fold coreStep (l # logs) (map_option coreOf \<circ> m)"
    by (simp only: fold_simps comp_apply)
  finally show ?case .
qed

lemma coreMerge_commute: "coreMerge (coreMerge c x) y = coreMerge (coreMerge c y) x"
  by (cases c) (auto simp add: coreMerge_def min.left_commute max.commute max.left_commute
      add_ac Un_ac)

lemma coreMerge_new_commute:
  "coreMerge (coreOf (flowView (newFlow x))) y = coreMerge (coreOf (flowView (newFlow y))) x"
  by (auto simp add: flowView_newFlow coreOf_def coreMerge_def min.commute max.commute
      add_ac Un_ac)

lemma coreStep_commute: "coreStep x \<circ> coreStep y = coreStep y \<circ> coreStep x"
proof (cases "flowKey x = flowKey y")
  case True
  then show ?thesis
    using coreMerge_commute coreMerge_new_commute
    by (auto simp add: coreStep_def fun_eq_iff split: option.splits)
next
  case False
  then show ?thesis
    by (auto simp add: coreStep_def fun_eq_iff split: option.splits)
qed

lemma coreViews_permutation:
  assumes "mset logs = mset logs'"
  shows "map_option coreOf \<circ> flowViews (buildFlowMap logs)
       = map_option coreOf \<circ> flowViews (buildFlowMap logs')"
proof -
  have "fold coreStep logs = fold coreStep logs'"
    by (rule fold_multiset_equiv [OF coreStep_commute assms])
  then show ?thesis
    by (simp add: flowViews_buildFlowMap coreOf_fold)
qed

lemma coreSet_flowViews:
  assumes "distinct (map fst fm)"
  shows "coreSet fm = {(k, c). (map_option coreOf \<circ> flowViews fm) k = Some c}"
proof -
  have "coreSet fm = {(k, c). \<exists>f. (k, f) \<in> set fm \<and> c = coreOf (flowView f)}"
    by (force simp add: coreSet_def)
  also have "\<dots> = {(k, c). (map_option coreOf \<circ> flowViews fm) k = Some c}"
  proof -
    have "(\<exists>f. (k, f) \<in> set fm \<and> c = coreOf (flowView f))
        \<longleftrightarrow> (map_option coreOf \<circ> flowViews fm) k = Some c" for k c
      using assms by (simp add: flowViews_def del: split_paired_Ex) blast
    then show ?thesis by simp
  qed
  finally show ?thesis .
qed

text \<open>
  C1. For every list of flow logs and every permutation of it, the flow map has the
  same keys, and under each key the same counters, time window, policy sets and
  enforced policies (as a multiset); and it has the same side actions as well, so that
  the two maps are the same set of keys with views, when no action contains the bar
  that separates the fields of the key. \<open>Allow\<close> and \<open>Deny\<close> do not.
\<close>

theorem aggregate_order_independent:
  assumes "mset logs = mset logs'"
  shows "coreSet (buildFlowMap logs) = coreSet (buildFlowMap logs')
       \<and> ((\<forall>log\<in>set logs. barFree (action log))
            \<longrightarrow> flowSet (buildFlowMap logs) = flowSet (buildFlowMap logs'))"
proof
  show "coreSet (buildFlowMap logs) = coreSet (buildFlowMap logs')"
    using coreViews_permutation [OF assms]
    by (simp only: coreSet_flowViews [OF distinct_buildFlowMap])
  show "(\<forall>log\<in>set logs. barFree (action log))
            \<longrightarrow> flowSet (buildFlowMap logs) = flowSet (buildFlowMap logs')"
    using flowViews_permutation [OF assms]
    by (simp add: flowSet_flowViews distinct_buildFlowMap)
qed

theorem aggregate_order_independent_witness:
  "mset [allowSrc, allowDst, denySrc] = mset [denySrc, allowDst, allowSrc]
   \<and> barFree (action allowSrc) \<and> barFree (action allowDst) \<and> barFree (action denySrc)
   \<and> coreSet (buildFlowMap [allowSrc, allowDst, denySrc])
       = coreSet (buildFlowMap [denySrc, allowDst, allowSrc])
   \<and> flowSet (buildFlowMap [allowSrc, allowDst, denySrc])
       = flowSet (buildFlowMap [denySrc, allowDst, allowSrc])"
proof -
  have m: "mset [allowSrc, allowDst, denySrc] = mset [denySrc, allowDst, allowSrc]"
    by (simp add: add_mset_commute)
  have b: "barFree (action allowSrc)" "barFree (action allowDst)" "barFree (action denySrc)"
    by (simp_all add: allowSrc_def allowDst_def denySrc_def barFree_def)
  from aggregate_order_independent [OF m] m b show ?thesis
    by simp
qed

section \<open>Allow and Deny stay apart\<close>

text \<open>
  C2. Two flow logs that agree on source name, source namespace, destination name,
  destination namespace, protocol and destination port, one with action \<open>Allow\<close>
  and one with action \<open>Deny\<close>, have different keys, and the flow map built from
  the two has exactly two entries, one made from each log, in either order. In the
  flow map of any list that contains the two, both keys are there.
\<close>

theorem allow_deny_never_merge:
  assumes "source_name r1 = source_name r2" and "source_namespace r1 = source_namespace r2"
    and "dest_name r1 = dest_name r2" and "dest_namespace r1 = dest_namespace r2"
    and "protocol r1 = protocol r2" and "dest_port r1 = dest_port r2"
    and "action r1 = ''Allow''" and "action r2 = ''Deny''"
  shows "flowKey r1 \<noteq> flowKey r2
    \<and> length (buildFlowMap [r1, r2]) = 2
    \<and> buildFlowMap [r1, r2] = [(flowKey r1, newFlow r1), (flowKey r2, newFlow r2)]
    \<and> buildFlowMap [r2, r1] = [(flowKey r2, newFlow r2), (flowKey r1, newFlow r1)]
    \<and> (\<forall>logs. r1 \<in> set logs \<and> r2 \<in> set logs \<longrightarrow>
          flowKey r1 \<in> fst ` set (buildFlowMap logs)
          \<and> flowKey r2 \<in> fst ` set (buildFlowMap logs))"
proof -
  have "flowKey r1 \<noteq> flowKey r2"
    using assms by (simp add: flowKey_unfold)
  then have "flowKey r1 \<noteq> flowKey r2
    \<and> length (buildFlowMap [r1, r2]) = 2
    \<and> buildFlowMap [r1, r2] = [(flowKey r1, newFlow r1), (flowKey r2, newFlow r2)]
    \<and> buildFlowMap [r2, r1] = [(flowKey r2, newFlow r2), (flowKey r1, newFlow r1)]"
    by (auto simp add: buildFlowMap_def processLog_def)
  moreover have "\<forall>logs. r1 \<in> set logs \<and> r2 \<in> set logs \<longrightarrow>
          flowKey r1 \<in> fst ` set (buildFlowMap logs)
          \<and> flowKey r2 \<in> fst ` set (buildFlowMap logs)"
    by (simp add: keys_buildFlowMap)
  ultimately show ?thesis by blast
qed

theorem allow_deny_never_merge_witness:
  "action allowSrc = ''Allow'' \<and> action denySrc = ''Deny''
   \<and> flowKey allowSrc \<noteq> flowKey denySrc
   \<and> length (buildFlowMap [allowSrc, denySrc]) = 2"
  using allow_deny_never_merge [of allowSrc denySrc]
  by (simp add: allowSrc_def denySrc_def)

section \<open>The side actions of a flow\<close>

lemma sourceAction_mergeFlow:
  "sourceAction (mergeFlow e log) =
     (if reporter log = ''Src'' then mergeAction (sourceAction e) (action log) else sourceAction e)"
  by (simp add: mergeFlow_def split: prod.splits)

lemma destAction_mergeFlow:
  "destAction (mergeFlow e log) =
     (if reporter log = ''Src'' then destAction e
      else if reporter log = ''Dst'' then mergeAction (destAction e) (action log)
      else destAction e)"
  by (simp add: mergeFlow_def split: prod.splits)

lemma sourceAction_newFlow:
  "sourceAction (newFlow log) = (if reporter log = ''Src'' then action log else ''N/A'')"
  by (simp add: newFlow_def split: prod.splits)

lemma destAction_newFlow:
  "destAction (newFlow log) = (if reporter log = ''Dst'' then action log else ''N/A'')"
  by (simp add: newFlow_def split: prod.splits)

lemma sideActionsOk_newFlow: "sideActionsOk (newFlow l) (action l)"
  by (simp add: sideActionsOk_def sourceAction_newFlow destAction_newFlow)

lemma sideActionsOk_mergeFlow:
  "sideActionsOk e (action l) \<Longrightarrow> sideActionsOk (mergeFlow e l) (action l)"
  by (auto simp add: sideActionsOk_def sourceAction_mergeFlow destAction_mergeFlow
      mergeAction_def actionConflict_def)

lemma sideActions_invariant:
  assumes "\<And>log. log \<in> set logs \<Longrightarrow> barFree (action log)"
    and "map_of (buildFlowMap logs) k = Some f" and "log \<in> set logs" and "flowKey log = k"
  shows "sideActionsOk f (action log)"
  using assms
proof (induction logs arbitrary: k f log rule: rev_induct)
  case Nil
  then show ?case by simp
next
  case (snoc l logs k f log)
  let ?fm = "buildFlowMap logs"
  note nb = snoc.prems(1)
  have IH: "\<And>k f log. map_of ?fm k = Some f \<Longrightarrow> log \<in> set logs \<Longrightarrow> flowKey log = k
              \<Longrightarrow> sideActionsOk f (action log)"
  proof -
    fix k f log
    assume "map_of ?fm k = Some f" "log \<in> set logs" "flowKey log = k"
    then show "sideActionsOk f (action log)"
      by (rule snoc.IH [rotated]) (simp add: nb)
  qed
  have same: "\<And>log. log \<in> set (logs @ [l]) \<Longrightarrow> flowKey log = flowKey l
                \<Longrightarrow> action log = action l"
    by (rule flowKey_action) (simp_all add: nb)
  have step: "map_of (buildFlowMap (logs @ [l])) =
     (map_of ?fm)(flowKey l \<mapsto>
        (case map_of ?fm (flowKey l) of None \<Rightarrow> newFlow l | Some e \<Rightarrow> mergeFlow e l))"
    unfolding buildFlowMap_snoc by (rule map_of_processLog)
  note f = snoc.prems(2) [unfolded step]
  note log = snoc.prems(3) and k = snoc.prems(4)
  show ?case
  proof (cases "k = flowKey l")
    case False
    with f have "map_of ?fm k = Some f" by simp
    moreover from False k log have "log \<in> set logs" by auto
    ultimately show ?thesis using k by (rule IH)
  next
    case True
    with k have "flowKey log = flowKey l" by simp
    with log have a: "action log = action l" by (rule same)
    show ?thesis
    proof (cases "map_of ?fm (flowKey l)")
      case None
      with f True have "f = newFlow l" by simp
      then show ?thesis
        by (simp add: a sideActionsOk_newFlow)
    next
      case (Some e)
      with f True have fe: "f = mergeFlow e l" by simp
      from Some have "flowKey l \<in> fst ` set ?fm"
        by (rule map_of_key)
      then obtain l' where l': "l' \<in> set logs" "flowKey l' = flowKey l"
        unfolding keys_buildFlowMap by auto
      then have "action l' = action l" by (simp add: same [of l'])
      with IH [OF Some l'] have "sideActionsOk e (action l)" by simp
      then show ?thesis unfolding fe a by (rule sideActionsOk_mergeFlow)
    qed
  qed
qed

lemma no_conflict_at_step:
  assumes bf: "\<And>l. l \<in> set (pre @ [log]) \<Longrightarrow> barFree (action l)"
    and e: "map_of (buildFlowMap pre) (flowKey log) = Some existing"
  shows "\<not> actionConflict (sourceAction existing) (action log)
       \<and> \<not> actionConflict (destAction existing) (action log)"
proof -
  from e have "flowKey log \<in> fst ` set (buildFlowMap pre)"
    by (rule map_of_key)
  then obtain l' where l': "l' \<in> set pre" "flowKey l' = flowKey log"
    unfolding keys_buildFlowMap by auto
  have "barFree (action l')" "barFree (action log)"
    using bf l'(1) by simp_all
  with l'(2) have a: "action l' = action log"
    by (rule flowKey_action)
  have "sideActionsOk existing (action l')"
    using e l' by (rule sideActions_invariant [rotated]) (simp add: bf)
  then show ?thesis
    by (auto simp add: a sideActionsOk_def actionConflict_def)
qed

lemma plusFree_formatAction:
  "a = ''N/A'' \<or> a = ''Allow'' \<or> a = ''Deny'' \<Longrightarrow> plusFree a \<and> plusFree (formatAction a)"
  by (auto simp add: plusFree_def formatAction_def emojiCheck_def emojiAlert_def emojiCross_def)

text \<open>
  C10. When the actions of the logs are \<open>Allow\<close> or \<open>Deny\<close>, then after any list
  of logs every flow of the map has, on each side, the sentinel \<open>N/A\<close> or exactly
  the action of the logs of its key; at no step of the loop does the test that guards
  the concatenation with \<open>+\<close> hold, for either side; and neither the action strings
  of the map nor the ones that \<open>formatAction\<close> makes of them contain \<open>+\<close>.
\<close>

theorem side_actions_invariant:
  assumes "\<forall>log\<in>set logs. action log = ''Allow'' \<or> action log = ''Deny''"
  shows "(\<forall>(k, f)\<in>set (buildFlowMap logs).
            (\<exists>log\<in>set logs. flowKey log = k)
            \<and> (\<forall>log\<in>set logs. flowKey log = k \<longrightarrow> sideActionsOk f (action log))
            \<and> plusFree (sourceAction f) \<and> plusFree (destAction f)
            \<and> plusFree (formatAction (sourceAction f))
            \<and> plusFree (formatAction (destAction f)))
       \<and> (\<forall>pre log post existing.
            logs = pre @ log # post
            \<longrightarrow> map_of (buildFlowMap pre) (flowKey log) = Some existing
            \<longrightarrow> \<not> actionConflict (sourceAction existing) (action log)
                \<and> \<not> actionConflict (destAction existing) (action log))"
proof (intro conjI allI impI)
  have bf: "\<And>log. log \<in> set logs \<Longrightarrow> barFree (action log)"
    using assms by (simp add: barFree_Allow_Deny)
  show "\<forall>(k, f)\<in>set (buildFlowMap logs).
            (\<exists>log\<in>set logs. flowKey log = k)
            \<and> (\<forall>log\<in>set logs. flowKey log = k \<longrightarrow> sideActionsOk f (action log))
            \<and> plusFree (sourceAction f) \<and> plusFree (destAction f)
            \<and> plusFree (formatAction (sourceAction f))
            \<and> plusFree (formatAction (destAction f))"
  proof (clarify, intro conjI)
    fix k f
    assume kf: "(k, f) \<in> set (buildFlowMap logs)"
    then have "k \<in> fst ` set (buildFlowMap logs)" by force
    then obtain l where l: "l \<in> set logs" "flowKey l = k"
      unfolding keys_buildFlowMap by auto
    then show "\<exists>log\<in>set logs. flowKey log = k" by blast
    from kf have m: "map_of (buildFlowMap logs) k = Some f"
      by (simp add: distinct_buildFlowMap)
    have ok: "\<And>log. log \<in> set logs \<Longrightarrow> flowKey log = k \<Longrightarrow> sideActionsOk f (action log)"
      using bf m by (rule sideActions_invariant)
    then show "\<forall>log\<in>set logs. flowKey log = k \<longrightarrow> sideActionsOk f (action log)"
      by blast
    from ok [OF l] have "sideActionsOk f (action l)" .
    moreover have "action l = ''Allow'' \<or> action l = ''Deny''"
      using assms l(1) by blast
    ultimately have s: "sourceAction f = ''N/A'' \<or> sourceAction f = ''Allow''
        \<or> sourceAction f = ''Deny''"
      and d: "destAction f = ''N/A'' \<or> destAction f = ''Allow'' \<or> destAction f = ''Deny''"
      by (auto simp add: sideActionsOk_def)
    from plusFree_formatAction [OF s]
    show "plusFree (sourceAction f)" "plusFree (formatAction (sourceAction f))"
      by simp_all
    from plusFree_formatAction [OF d]
    show "plusFree (destAction f)" "plusFree (formatAction (destAction f))"
      by simp_all
  qed
next
  fix pre log post existing
  assume split: "logs = pre @ log # post"
    and e: "map_of (buildFlowMap pre) (flowKey log) = Some existing"
  have "\<And>l. l \<in> set (pre @ [log]) \<Longrightarrow> barFree (action l)"
    using assms split by (auto simp add: barFree_Allow_Deny)
  from no_conflict_at_step [OF this e]
  show "\<not> actionConflict (sourceAction existing) (action log)"
    and "\<not> actionConflict (destAction existing) (action log)"
    by simp_all
qed

theorem side_actions_invariant_witness:
  "action allowSrc = ''Allow'' \<and> action allowDst = ''Allow'' \<and> action denySrc = ''Deny''
   \<and> (flowKey allowSrc, mergeFlow (newFlow allowSrc) allowDst)
        \<in> set (buildFlowMap [allowSrc, allowDst, denySrc])
   \<and> sideActionsOk (mergeFlow (newFlow allowSrc) allowDst) ''Allow''
   \<and> plusFree (sourceAction (mergeFlow (newFlow allowSrc) allowDst))
   \<and> plusFree (destAction (mergeFlow (newFlow allowSrc) allowDst))
   \<and> map_of (buildFlowMap [allowSrc]) (flowKey allowDst) = Some (newFlow allowSrc)
   \<and> \<not> actionConflict (destAction (newFlow allowSrc)) (action allowDst)"
proof -
  have a: "action allowSrc = ''Allow''" "action allowDst = ''Allow''" "action denySrc = ''Deny''"
    by (simp_all add: allowSrc_def allowDst_def denySrc_def)
  then have h: "\<forall>log\<in>set [allowSrc, allowDst, denySrc].
      action log = ''Allow'' \<or> action log = ''Deny''"
    by simp
  have k: "flowKey allowDst = flowKey allowSrc" "flowKey denySrc \<noteq> flowKey allowSrc"
    by (simp_all add: flowKey_def allowDst_def denySrc_def allowSrc_def)
  have m: "map_of (buildFlowMap [allowSrc]) (flowKey allowDst) = Some (newFlow allowSrc)"
    by (simp add: buildFlowMap_def processLog_def k)
  have e: "(flowKey allowSrc, mergeFlow (newFlow allowSrc) allowDst)
        \<in> set (buildFlowMap [allowSrc, allowDst, denySrc])"
    by (simp add: buildFlowMap_def processLog_def k k(2) [symmetric])
  have s: "[allowSrc, allowDst, denySrc] = [allowSrc] @ allowDst # [denySrc]"
    by simp
  note inv = side_actions_invariant [OF h]
  from inv s m have c: "\<not> actionConflict (destAction (newFlow allowSrc)) (action allowDst)"
    by blast
  from inv e have
    "(\<forall>log\<in>set [allowSrc, allowDst, denySrc]. flowKey log = flowKey allowSrc
        \<longrightarrow> sideActionsOk (mergeFlow (newFlow allowSrc) allowDst) (action log))
     \<and> plusFree (sourceAction (mergeFlow (newFlow allowSrc) allowDst))
     \<and> plusFree (destAction (mergeFlow (newFlow allowSrc) allowDst))"
    by blast
  with a have "sideActionsOk (mergeFlow (newFlow allowSrc) allowDst) ''Allow''
     \<and> plusFree (sourceAction (mergeFlow (newFlow allowSrc) allowDst))
     \<and> plusFree (destAction (mergeFlow (newFlow allowSrc) allowDst))"
    by simp
  with a e m c show ?thesis by simp
qed

section \<open>Status and security alerts of the summary\<close>

lemma includes_statusBlocked: "str_includes statusBlocked ''BLOCKED''"
  by (simp add: statusBlocked_def emojiAlert_def)

lemma includes_statusAllowed: "\<not> str_includes statusAllowed ''BLOCKED''"
  by (simp add: statusAllowed_def emojiCheck_def)

lemma statusBlocked_neq: "statusBlocked \<noteq> statusAllowed"
  by (simp add: statusBlocked_def statusAllowed_def emojiAlert_def emojiCheck_def)

lemma status_flowEntry:
  "status (flowEntry w flow) =
     (if sourceAction flow = ''Deny'' \<or> destAction flow = ''Deny''
      then statusBlocked else statusAllowed)"
  by (simp add: flowEntry_def)

lemma includes_status_flowEntry:
  "str_includes (status (flowEntry w flow)) ''BLOCKED'' \<longleftrightarrow>
     status (flowEntry w flow) = statusBlocked"
  by (simp add: status_flowEntry includes_statusBlocked includes_statusAllowed
      statusBlocked_neq [symmetric])

lemma blocked_filter:
  "filter (\<lambda>e. str_includes (status e) ''BLOCKED'') (map (flowEntry w) fl) =
     filter (\<lambda>e. status e = statusBlocked) (map (flowEntry w) fl)"
  by (induction fl) (simp_all add: includes_status_flowEntry)

lemma flows_summarize:
  "flows (summarize w namespace namespaceLogs fm) = map (flowEntry w) (sortedFlows w fm)"
  by (simp add: summarize_def Let_def)

lemma securityAlerts_summarize:
  "securityAlerts (summarize w namespace namespaceLogs fm) =
     (let blocked = filter (\<lambda>e. status e = statusBlocked) (map (flowEntry w) (sortedFlows w fm))
      in if blocked = [] then None
         else Some \<lparr> alert_message =
                       emojiAlert @ '' '' @ string_of_nat (length blocked)
                         @ '' blocked flow(s) detected - immediate attention required!'',
                     alert_blockedFlows = map blockedFlowLine blocked \<rparr>)"
  by (simp add: summarize_def Let_def blocked_filter)

lemma mset_insertBy: "mset (insertBy cmp x xs) = add_mset x (mset xs)"
  by (induction xs) simp_all

lemma mset_fold_insertBy: "mset (fold (insertBy cmp) xs acc) = mset xs + mset acc"
  by (induction xs arbitrary: acc) (simp_all add: mset_insertBy)

lemma mset_sortedFlows: "mset (sortedFlows w fm) = mset (map snd fm)"
  by (simp add: sortedFlows_def sortBy_def mset_fold_insertBy)

lemma getNamespaceFlowSummary_Summary:
  assumes "getNamespaceFlowSummary namespace w = (Resolved (Summary s), w')"
  shows "\<exists>allLogs. getFlowLogs w = (Resolved allLogs, w')
     \<and> s = summarize w' namespace
           (filter (\<lambda>log. source_namespace log = namespace \<or> dest_namespace log = namespace)
              allLogs)
           (buildFlowMap
              (filter (\<lambda>log. source_namespace log = namespace \<or> dest_namespace log = namespace)
                 allLogs))"
proof (cases "getFlowLogs w")
  case (Pair r w1)
  show ?thesis
  proof (cases r)
    case (Resolved allLogs)
    with Pair assms show ?thesis
      by (auto simp add: getNamespaceFlowSummary_def Let_def split: if_splits)
  next
    case (Rejected msg)
    with Pair assms show ?thesis
      by (simp add: getNamespaceFlowSummary_def)
  qed
qed

text \<open>
  C7. In every summary that \<open>getNamespaceFlowSummary\<close> returns, the flows are the
  entries of the flow map of the namespace's logs (each once, sorted); the status of
  a flow is the BLOCKED string exactly when its source action or its destination
  action is the string \<open>Deny\<close>, and the ALLOWED string otherwise; the block
  \<open>securityAlerts\<close> is there (not null) exactly when some flow is BLOCKED, and it
  lists, for each blocked flow in order, source name, destination name and port.
\<close>

theorem status_and_alerts:
  assumes "getNamespaceFlowSummary namespace w = (Resolved (Summary s), w')"
  shows "(\<exists>allLogs fl.
            getFlowLogs w = (Resolved allLogs, w')
            \<and> mset fl = mset (map snd (buildFlowMap
                  (filter (\<lambda>log. source_namespace log = namespace
                                \<or> dest_namespace log = namespace) allLogs)))
            \<and> flows s = map (flowEntry w') fl)
       \<and> (\<forall>flow. (status (flowEntry w' flow) = statusBlocked
                      \<longleftrightarrow> sourceAction flow = ''Deny'' \<or> destAction flow = ''Deny'')
                 \<and> (status (flowEntry w' flow) = statusAllowed
                      \<longleftrightarrow> \<not> (sourceAction flow = ''Deny'' \<or> destAction flow = ''Deny'')))
       \<and> (securityAlerts s \<noteq> None \<longleftrightarrow> (\<exists>e\<in>set (flows s). status e = statusBlocked))
       \<and> (\<forall>a. securityAlerts s = Some a \<longrightarrow>
              alert_blockedFlows a =
                map (\<lambda>e. ep_name (fe_source e) @ '' '' @ arrow @ '' ''
                            @ ep_name (fe_destination e) @ '':'' @ port_template (conn_port e))
                  (filter (\<lambda>e. status e = statusBlocked) (flows s)))"
proof -
  let ?nsLogs = "\<lambda>allLogs. filter (\<lambda>log. source_namespace log = namespace
                                \<or> dest_namespace log = namespace) allLogs"
  from getNamespaceFlowSummary_Summary [OF assms]
  obtain allLogs where f: "getFlowLogs w = (Resolved allLogs, w')"
    and s: "s = summarize w' namespace (?nsLogs allLogs) (buildFlowMap (?nsLogs allLogs))"
    by blast
  let ?fl = "sortedFlows w' (buildFlowMap (?nsLogs allLogs))"
  have fl: "flows s = map (flowEntry w') ?fl"
    unfolding s by (rule flows_summarize)
  have 1: "\<exists>allLogs fl.
            getFlowLogs w = (Resolved allLogs, w')
            \<and> mset fl = mset (map snd (buildFlowMap (?nsLogs allLogs)))
            \<and> flows s = map (flowEntry w') fl"
    using f fl mset_sortedFlows by blast
  have 2: "\<forall>flow. (status (flowEntry w' flow) = statusBlocked
                      \<longleftrightarrow> sourceAction flow = ''Deny'' \<or> destAction flow = ''Deny'')
                 \<and> (status (flowEntry w' flow) = statusAllowed
                      \<longleftrightarrow> \<not> (sourceAction flow = ''Deny'' \<or> destAction flow = ''Deny''))"
    using statusBlocked_neq by (simp add: status_flowEntry)
  have sa: "securityAlerts s =
     (let blocked = filter (\<lambda>e. status e = statusBlocked) (flows s)
      in if blocked = [] then None
         else Some \<lparr> alert_message =
                       emojiAlert @ '' '' @ string_of_nat (length blocked)
                         @ '' blocked flow(s) detected - immediate attention required!'',
                     alert_blockedFlows = map blockedFlowLine blocked \<rparr>)"
    unfolding fl unfolding s by (rule securityAlerts_summarize)
  have 3: "securityAlerts s \<noteq> None \<longleftrightarrow> (\<exists>e\<in>set (flows s). status e = statusBlocked)"
    unfolding sa by (simp add: Let_def filter_empty_conv)
  have 4: "\<forall>a. securityAlerts s = Some a \<longrightarrow>
              alert_blockedFlows a =
                map (\<lambda>e. ep_name (fe_source e) @ '' '' @ arrow @ '' ''
                            @ ep_name (fe_destination e) @ '':'' @ port_template (conn_port e))
                  (filter (\<lambda>e. status e = statusBlocked) (flows s))"
    unfolding sa by (auto simp add: Let_def blockedFlowLine_def split: if_splits)
  from 1 2 3 4 show ?thesis by blast
qed

lemma example_summary_run:
  "getNamespaceFlowSummary ''shop'' exampleWorld = (Resolved (Summary exampleSummary), fetchedWorld)"
proof -
  have ns: "source_namespace allowSrc = ''shop''" "source_namespace allowDst = ''shop''"
    "source_namespace denySrc = ''shop''"
    by (simp_all add: allowSrc_def allowDst_def denySrc_def)
  show ?thesis
    by (simp add: getNamespaceFlowSummary_def getFlowLogs_def exampleWorld_def fetchedWorld_def
        exampleSummary_def Let_def ns)
qed

theorem status_and_alerts_witness:
  "getNamespaceFlowSummary ''shop'' exampleWorld = (Resolved (Summary exampleSummary), fetchedWorld)
   \<and> sourceAction (newFlow denySrc) = ''Deny''
   \<and> status (flowEntry fetchedWorld (newFlow denySrc)) = statusBlocked
   \<and> (securityAlerts exampleSummary \<noteq> None)
       = (\<exists>e. e \<in> set (flows exampleSummary) \<and> status e = statusBlocked)"
proof -
  have d: "sourceAction (newFlow denySrc) = ''Deny''"
    by (simp add: sourceAction_newFlow denySrc_def allowSrc_def)
  from status_and_alerts [OF example_summary_run] d example_summary_run
  show ?thesis by (simp add: Bex_def)
qed

section \<open>Policy lookup and the analysis of blocked flows\<close>

lemma retrievePolicyDetails_unsupported:
  "resourceType k = None \<Longrightarrow> retrievePolicyDetails w n ns k = Resolved None"
  by (simp add: retrievePolicyDetails_def)

lemma retrievePolicyDetails_silent:
  "resourceType k = Some rt \<Longrightarrow> silentEvent (kubectl w (kubectlArgs w rt n ns k)) \<Longrightarrow>
     retrievePolicyDetails w n ns k = Resolved None"
  by (cases "kubectl w (kubectlArgs w rt n ns k)") (simp_all add: retrievePolicyDetails_def)

lemma retrievePolicyDetails_rejects_iff:
  "retrievePolicyDetails w n ns k = Rejected msg \<longleftrightarrow>
     (\<exists>rt. resourceType k = Some rt \<and> kubectl w (kubectlArgs w rt n ns k) = SpawnThrows msg)"
  by (simp add: retrievePolicyDetails_def split: option.splits kubectlEvent.splits)

lemma retrievePolicyDetails_fails:
  "failsSilently w trig \<Longrightarrow>
     retrievePolicyDetails w (p_name trig) (p_namespace trig) (p_kind trig) = Resolved None"
  by (cases "resourceType (p_kind trig)")
     (simp_all add: failsSilently_def retrievePolicyDetails_unsupported
        retrievePolicyDetails_silent)

lemma retrievePolicyDetails_throws:
  "failsThrowing w trig msg \<longleftrightarrow>
     retrievePolicyDetails w (p_name trig) (p_namespace trig) (p_kind trig) = Rejected msg"
  by (simp add: failsThrowing_def retrievePolicyDetails_rejects_iff split: option.splits)

lemma lookupEntry_fields:
  "triggerPolicy (lookupEntry w trig reason) = trig
   \<and> blockingReason (lookupEntry w trig reason) = reason"
  by (cases "retrievePolicyDetails w (p_name trig) (p_namespace trig) (p_kind trig)")
     (simp_all add: lookupEntry_def)

lemma lookupEntry_fails:
  "failsSilently w trig \<Longrightarrow>
     lookupEntry w trig reason =
       \<lparr> triggerPolicy = trig, policyYaml = None, bp_error = None, blockingReason = reason \<rparr>"
  by (simp add: lookupEntry_def retrievePolicyDetails_fails)

lemma lookupEntry_throws:
  "failsThrowing w trig msg \<Longrightarrow>
     lookupEntry w trig reason =
       \<lparr> triggerPolicy = trig, policyYaml = None,
         bp_error = Some (''Failed to retrieve policy: '' @ msg), blockingReason = reason \<rparr>"
  by (simp add: lookupEntry_def retrievePolicyDetails_throws)

lemma lookupEntry_error_iff:
  "bp_error (lookupEntry w trig reason) = Some e \<longleftrightarrow>
     (\<exists>msg. failsThrowing w trig msg \<and> e = ''Failed to retrieve policy: '' @ msg)"
  by (cases "retrievePolicyDetails w (p_name trig) (p_namespace trig) (p_kind trig)")
     (auto simp add: lookupEntry_def retrievePolicyDetails_throws)

lemma fold_pendingStep:
  "fold (pendingStep w) ps acc =
     acc @ map (\<lambda>(p, t). lookupEntry w t (pendingReason p)) (pendingHits ps)"
  by (induction ps arbitrary: acc)
     (simp_all add: pendingHits_def pendingStep_def split: option.splits)

lemma fold_enforcedStep:
  "fold (enforcedStep w) ps acc =
     acc @ map (\<lambda>(p, t). lookupEntry w t ''Enforced deny rule'') (enforcedHits ps)"
  by (induction ps arbitrary: acc)
     (simp_all add: enforcedHits_def enforcedStep_def split: option.splits)

lemma blockingPoliciesOf_eq:
  "blockingPoliciesOf w log =
     map (\<lambda>(p, t). lookupEntry w t (pendingReason p)) (pendingHits (pendingOf log))
     @ map (\<lambda>(p, t). lookupEntry w t ''Enforced deny rule'') (enforcedHits (enforcedOf log))"
  by (simp add: blockingPoliciesOf_def fold_pendingStep fold_enforcedStep)

lemma blockingPolicies_analyzeLog:
  "blockingPolicies (analyzeLog w log) = blockingPoliciesOf w log"
  by (simp add: analyzeLog_def Let_def)

lemma analyzeBlockedFlows_cases:
  assumes "getFlowLogs w = (Resolved allLogs, w')"
  shows "analyzeBlockedFlows namespace w =
     (if blockedLogsOf namespace allLogs = []
      then (Resolved (NoBlockedFlows
              \<lparr> nb_namespace = namespaceOrAll namespace,
                nb_message = ''No blocked flows found'',
                nb_blockedFlows = [] \<rparr>), w')
      else (Resolved (BlockedAnalysis
              \<lparr> bs_namespace = namespaceOrAll namespace,
                totalBlockedFlows = length (blockedLogsOf namespace allLogs),
                uniqueBlockedConnections =
                  length (uniq (map connectionName (blockedLogsOf namespace allLogs))),
                bs_window_start =
                  combineTimes min (map (\<lambda>log. getTime w' (start_time log))
                    (blockedLogsOf namespace allLogs)),
                bs_window_end =
                  combineTimes max (map (\<lambda>log. getTime w' (end_time log))
                    (blockedLogsOf namespace allLogs)),
                blockedFlows = map (analyzeLog w') (blockedLogsOf namespace allLogs),
                insights_message =
                  emojiAlert @ '' '' @ string_of_nat (length (blockedLogsOf namespace allLogs))
                    @ '' blocked flow(s) detected'',
                recommendations =
                  [''Review each blocking policy to ensure it aligns with your security requirements'',
                   ''Consider if any blocked flows represent legitimate traffic that should be allowed'',
                   ''Verify that policy ordering and tier configuration are correct'',
                   ''Monitor for patterns that might indicate security threats or misconfigurations''] \<rparr>),
            w'))"
  using assms by (simp add: analyzeBlockedFlows_def Let_def)

lemma analyzeBlockedFlows_analysis:
  assumes "analyzeBlockedFlows namespace w = (Resolved (BlockedAnalysis d), w')"
  shows "\<exists>allLogs. getFlowLogs w = (Resolved allLogs, w')
           \<and> blockedLogsOf namespace allLogs \<noteq> []
           \<and> blockedFlows d = map (analyzeLog w') (blockedLogsOf namespace allLogs)"
proof (cases "getFlowLogs w")
  case (Pair r w1)
  show ?thesis
  proof (cases r)
    case (Resolved allLogs)
    with Pair have g: "getFlowLogs w = (Resolved allLogs, w1)" by simp
    from assms show ?thesis
      unfolding analyzeBlockedFlows_cases [OF g] using g
      by (auto split: if_splits)
  next
    case (Rejected msg)
    with Pair assms show ?thesis
      by (simp add: analyzeBlockedFlows_def)
  qed
qed

lemma blockedLogsOf_Deny: "log \<in> set (blockedLogsOf namespace allLogs) \<Longrightarrow> action log = ''Deny''"
  by (auto simp add: blockedLogsOf_def Let_def split: option.splits if_splits)

lemma blockedLogsOf_no_Deny:
  "\<forall>log\<in>set allLogs. action log \<noteq> ''Deny'' \<Longrightarrow> blockedLogsOf namespace allLogs = []"
  by (auto simp add: blockedLogsOf_def Let_def filter_empty_conv split: option.splits)

text \<open>
  C3. In every analysis that \<open>analyzeBlockedFlows\<close> returns, the analysed records
  are the denied ones, and for each of them the blocking policies start with one entry
  for every pending hit that has a trigger with a name, in the order of the hits: the
  entry names that trigger, and its reason is \<open>Explicit deny rule\<close> if the action
  of the pending hit itself is \<open>Deny\<close> and \<open>End of tier default deny\<close> otherwise
  (the code's wording of the two reasons).
\<close>

theorem pending_hit_reason:
  assumes "analyzeBlockedFlows namespace w = (Resolved (BlockedAnalysis d), w')"
  shows "\<exists>allLogs.
           getFlowLogs w = (Resolved allLogs, w')
           \<and> blockedFlows d = map (analyzeLog w') (blockedLogsOf namespace allLogs)
           \<and> (\<forall>log\<in>set (blockedLogsOf namespace allLogs).
                 action log = ''Deny''
                 \<and> map (\<lambda>b. (triggerPolicy b, blockingReason b))
                       (take (length (pendingHits (pendingOf log)))
                          (blockingPolicies (analyzeLog w' log)))
                     = map (\<lambda>(p, t). (t, if p_action p = ''Deny'' then ''Explicit deny rule''
                                          else ''End of tier default deny''))
                         (pendingHits (pendingOf log)))"
proof -
  from analyzeBlockedFlows_analysis [OF assms]
  obtain allLogs where g: "getFlowLogs w = (Resolved allLogs, w')"
    and b: "blockedFlows d = map (analyzeLog w') (blockedLogsOf namespace allLogs)"
    by blast
  have "map (\<lambda>b. (triggerPolicy b, blockingReason b))
            (take (length (pendingHits (pendingOf log))) (blockingPolicies (analyzeLog w' log)))
        = map (\<lambda>(p, t). (t, if p_action p = ''Deny'' then ''Explicit deny rule''
                              else ''End of tier default deny''))
            (pendingHits (pendingOf log))" for log
    by (simp add: blockingPolicies_analyzeLog blockingPoliciesOf_eq lookupEntry_fields
        pendingReason_def split_def)
  with g b blockedLogsOf_Deny show ?thesis by blast
qed

lemma example_fetch:
  "getFlowLogs exampleWorld = (Resolved [allowSrc, allowDst, denySrc], fetchedWorld)"
  by (simp add: getFlowLogs_def exampleWorld_def fetchedWorld_def)

lemma example_blockedLogs: "blockedLogsOf None [allowSrc, allowDst, denySrc] = [denySrc]"
  by (simp add: blockedLogsOf_def allowSrc_def allowDst_def denySrc_def)

lemma example_pendingHits:
  "pendingHits (pendingOf denySrc) = [(stagedHit, denyPolicy), (tierEndHit, webPolicy)]"
  by (simp add: pendingHits_def pendingOf_def denySrc_def allowSrc_def stagedHit_def
      tierEndHit_def denyPolicy_def webPolicy_def truthy_def)

lemma example_enforcedHits: "enforcedHits (enforcedOf denySrc) = []"
  by (simp add: enforcedHits_def enforcedOf_def denySrc_def allowSrc_def denyPolicy_def)

lemma example_failsSilently:
  "failsSilently exampleWorld denyPolicy" "failsSilently exampleWorld webPolicy"
  by (simp_all add: failsSilently_def resourceType_def denyPolicy_def webPolicy_def
      exampleWorld_def)

lemma example_failsThrowing:
  "failsThrowing throwingWorld denyPolicy ''spawn E2BIG''"
  "failsThrowing throwingWorld webPolicy ''spawn E2BIG''"
  by (simp_all add: failsThrowing_def resourceType_def denyPolicy_def webPolicy_def
      throwingWorld_def exampleWorld_def)

lemma example_reasons:
  "pendingReason stagedHit = ''Explicit deny rule''"
  "pendingReason tierEndHit = ''End of tier default deny''"
  by (simp_all add: pendingReason_def stagedHit_def tierEndHit_def)

lemma example_blockingPolicies:
  "blockingPolicies (analyzeLog w denySrc) =
     [lookupEntry w denyPolicy ''Explicit deny rule'',
      lookupEntry w webPolicy ''End of tier default deny'']"
  by (simp add: blockingPolicies_analyzeLog blockingPoliciesOf_eq example_pendingHits
      example_enforcedHits example_reasons)

theorem pending_hit_reason_witness:
  "blockedLogsOf None [allowSrc, allowDst, denySrc] = [denySrc]
   \<and> pendingHits (pendingOf denySrc) = [(stagedHit, denyPolicy), (tierEndHit, webPolicy)]
   \<and> p_action stagedHit = ''Deny'' \<and> p_action tierEndHit = ''Pass''
   \<and> map (\<lambda>b. (triggerPolicy b, blockingReason b))
         (take 2 (blockingPolicies (analyzeLog fetchedWorld denySrc)))
       = [(denyPolicy, ''Explicit deny rule''), (webPolicy, ''End of tier default deny'')]"
proof -
  obtain d where run: "analyzeBlockedFlows None exampleWorld = (Resolved (BlockedAnalysis d), fetchedWorld)"
    by (simp add: analyzeBlockedFlows_cases [OF example_fetch] example_blockedLogs)
  have a: "p_action stagedHit = ''Deny''" "p_action tierEndHit = ''Pass''"
    by (simp_all add: stagedHit_def tierEndHit_def)
  from pending_hit_reason [OF run]
  have "map (\<lambda>b. (triggerPolicy b, blockingReason b))
            (take (length (pendingHits (pendingOf denySrc)))
              (blockingPolicies (analyzeLog fetchedWorld denySrc)))
        = map (\<lambda>(p, t). (t, if p_action p = ''Deny'' then ''Explicit deny rule''
                              else ''End of tier default deny''))
            (pendingHits (pendingOf denySrc))"
    by (auto simp add: example_fetch example_blockedLogs)
  then show ?thesis
    by (simp add: example_blockedLogs example_pendingHits a numeral_2_eq_2)
qed

text \<open>
  C4, as it is stated, fails: in a world where every lookup runs into the timeout, the
  two entries of the denied example record have no policy text and no error message
  either.
\<close>

theorem resolution_failure_counterexample:
  "failsSilently exampleWorld denyPolicy
   \<and> failsSilently exampleWorld webPolicy
   \<and> blockingPolicies (analyzeLog exampleWorld denySrc) =
       [\<lparr> triggerPolicy = denyPolicy, policyYaml = None, bp_error = None,
          blockingReason = ''Explicit deny rule'' \<rparr>,
        \<lparr> triggerPolicy = webPolicy, policyYaml = None, bp_error = None,
          blockingReason = ''End of tier default deny'' \<rparr>]"
  by (simp add: example_failsSilently example_blockingPolicies lookupEntry_fails)

text \<open>
  C4, amended. A lookup that fails leaves an entry with its trigger and reason and
  with null policy text. The entry has no error message when the lookup fails
  silently (kind not in the table, event \<open>error\<close>, timeout or exit code other than
  0: the resolver resolves to null), and it has the error message when the lookup
  fails with an exception (\<open>spawn\<close> throws: the resolver rejects). Every pending hit
  and every enforced deny hit with a named trigger has its entry whatever the lookups
  give; and once the flow logs are fetched, the analysis resolves whatever
  \<open>kubectl\<close> does.
\<close>

theorem resolution_failure_keeps_entry:
  "(\<forall>trig reason. failsSilently w trig \<longrightarrow>
       lookupEntry w trig reason =
         \<lparr> triggerPolicy = trig, policyYaml = None, bp_error = None, blockingReason = reason \<rparr>)
   \<and> (\<forall>trig reason msg. failsThrowing w trig msg \<longrightarrow>
       lookupEntry w trig reason =
         \<lparr> triggerPolicy = trig, policyYaml = None,
           bp_error = Some (''Failed to retrieve policy: '' @ msg), blockingReason = reason \<rparr>)
   \<and> blockingPolicies (analyzeLog w log)
       = map (\<lambda>(p, t). lookupEntry w t (pendingReason p)) (pendingHits (pendingOf log))
         @ map (\<lambda>(p, t). lookupEntry w t ''Enforced deny rule'') (enforcedHits (enforcedOf log))
   \<and> map (\<lambda>b. (triggerPolicy b, blockingReason b)) (blockingPolicies (analyzeLog w log))
       = map (\<lambda>(p, t). (t, pendingReason p)) (pendingHits (pendingOf log))
         @ map (\<lambda>(p, t). (t, ''Enforced deny rule'')) (enforcedHits (enforcedOf log))
   \<and> (\<forall>allLogs w'. getFlowLogs w = (Resolved allLogs, w') \<longrightarrow>
         (\<exists>doc. analyzeBlockedFlows namespace w = (Resolved doc, w')))"
proof (intro conjI allI impI)
  fix trig reason
  assume "failsSilently w trig"
  then show "lookupEntry w trig reason =
         \<lparr> triggerPolicy = trig, policyYaml = None, bp_error = None, blockingReason = reason \<rparr>"
    by (rule lookupEntry_fails)
next
  fix trig reason msg
  assume "failsThrowing w trig msg"
  then show "lookupEntry w trig reason =
         \<lparr> triggerPolicy = trig, policyYaml = None,
           bp_error = Some (''Failed to retrieve policy: '' @ msg), blockingReason = reason \<rparr>"
    by (rule lookupEntry_throws)
next
  show "blockingPolicies (analyzeLog w log)
       = map (\<lambda>(p, t). lookupEntry w t (pendingReason p)) (pendingHits (pendingOf log))
         @ map (\<lambda>(p, t). lookupEntry w t ''Enforced deny rule'') (enforcedHits (enforcedOf log))"
    by (simp add: blockingPolicies_analyzeLog blockingPoliciesOf_eq)
next
  show "map (\<lambda>b. (triggerPolicy b, blockingReason b)) (blockingPolicies (analyzeLog w log))
       = map (\<lambda>(p, t). (t, pendingReason p)) (pendingHits (pendingOf log))
         @ map (\<lambda>(p, t). (t, ''Enforced deny rule'')) (enforcedHits (enforcedOf log))"
    by (simp add: blockingPolicies_analyzeLog blockingPoliciesOf_eq lookupEntry_fields split_def)
next
  fix allLogs w'
  assume "getFlowLogs w = (Resolved allLogs, w')"
  then show "\<exists>doc. analyzeBlockedFlows namespace w = (Resolved doc, w')"
    by (simp add: analyzeBlockedFlows_cases)
qed

theorem resolution_failure_keeps_entry_witness:
  "failsSilently exampleWorld denyPolicy
   \<and> lookupEntry exampleWorld denyPolicy ''Explicit deny rule'' =
       \<lparr> triggerPolicy = denyPolicy, policyYaml = None, bp_error = None,
         blockingReason = ''Explicit deny rule'' \<rparr>
   \<and> failsThrowing throwingWorld denyPolicy ''spawn E2BIG''
   \<and> lookupEntry throwingWorld denyPolicy ''Explicit deny rule'' =
       \<lparr> triggerPolicy = denyPolicy, policyYaml = None,
         bp_error = Some ''Failed to retrieve policy: spawn E2BIG'',
         blockingReason = ''Explicit deny rule'' \<rparr>
   \<and> getFlowLogs exampleWorld = (Resolved [allowSrc, allowDst, denySrc], fetchedWorld)
   \<and> (\<exists>doc. analyzeBlockedFlows None exampleWorld = (Resolved doc, fetchedWorld))"
proof -
  from resolution_failure_keeps_entry [of exampleWorld denySrc None]
    example_failsSilently(1) example_fetch
  have 1: "lookupEntry exampleWorld denyPolicy ''Explicit deny rule'' =
       \<lparr> triggerPolicy = denyPolicy, policyYaml = None, bp_error = None,
         blockingReason = ''Explicit deny rule'' \<rparr>"
    and 2: "\<exists>doc. analyzeBlockedFlows None exampleWorld = (Resolved doc, fetchedWorld)"
    by blast+
  from resolution_failure_keeps_entry [of throwingWorld denySrc None] example_failsThrowing(1)
  have "lookupEntry throwingWorld denyPolicy ''Explicit deny rule'' =
       \<lparr> triggerPolicy = denyPolicy, policyYaml = None,
         bp_error = Some (''Failed to retrieve policy: '' @ ''spawn E2BIG''),
         blockingReason = ''Explicit deny rule'' \<rparr>"
    by blast
  then have 3: "lookupEntry throwingWorld denyPolicy ''Explicit deny rule'' =
       \<lparr> triggerPolicy = denyPolicy, policyYaml = None,
         bp_error = Some ''Failed to retrieve policy: spawn E2BIG'',
         blockingReason = ''Explicit deny rule'' \<rparr>"
    by simp
  from 1 2 3 example_failsSilently(1) example_failsThrowing(1) example_fetch
  show ?thesis by blast
qed

text \<open>
  C8. When the logs are fetched and none of them is a Deny record (of the namespace,
  if one is given), \<open>analyzeBlockedFlows\<close> resolves to the document that says
  \<open>No blocked flows found\<close>, with an empty list of blocked flows; in the other case it
  resolves to an analysis whose list is not empty. So the first result is told apart
  from an analysis, and is more than an empty list.
\<close>

theorem no_blocked_flows_result:
  assumes "getFlowLogs w = (Resolved allLogs, w')"
  shows "(blockedLogsOf namespace allLogs = [] \<longrightarrow>
            analyzeBlockedFlows namespace w =
              (Resolved (NoBlockedFlows
                 \<lparr> nb_namespace = namespaceOrAll namespace,
                   nb_message = ''No blocked flows found'',
                   nb_blockedFlows = [] \<rparr>), w'))
       \<and> (blockedLogsOf namespace allLogs \<noteq> [] \<longrightarrow>
            (\<exists>d. analyzeBlockedFlows namespace w = (Resolved (BlockedAnalysis d), w')
                 \<and> blockedFlows d \<noteq> []))
       \<and> ((\<forall>log\<in>set allLogs. action log \<noteq> ''Deny'') \<longrightarrow> blockedLogsOf namespace allLogs = [])"
  by (simp add: analyzeBlockedFlows_cases [OF assms] blockedLogsOf_no_Deny)

lemma quiet_fetch:
  "getFlowLogs quietWorld = (Resolved [allowSrc, allowDst], quietWorld \<lparr> fetches := 1 \<rparr>)"
  by (simp add: getFlowLogs_def quietWorld_def exampleWorld_def)

theorem no_blocked_flows_result_witness:
  "getFlowLogs quietWorld = (Resolved [allowSrc, allowDst], quietWorld \<lparr> fetches := 1 \<rparr>)
   \<and> blockedLogsOf None [allowSrc, allowDst] = []
   \<and> analyzeBlockedFlows None quietWorld =
       (Resolved (NoBlockedFlows
          \<lparr> nb_namespace = ''all'', nb_message = ''No blocked flows found'',
            nb_blockedFlows = [] \<rparr>), quietWorld \<lparr> fetches := 1 \<rparr>)"
proof -
  have b: "blockedLogsOf None [allowSrc, allowDst] = []"
    by (simp add: blockedLogsOf_def allowSrc_def allowDst_def)
  from no_blocked_flows_result [OF quiet_fetch, of None] b quiet_fetch
  show ?thesis by (simp add: namespaceOrAll_def)
qed

text \<open>
  C9, as it is stated, fails: in a world where the call of \<open>spawn\<close> throws, the promise
  of \<open>retrievePolicyDetails\<close> rejects, and the two entries of the denied example
  record are the ones of the \<open>catch\<close> branch, with the error message.
\<close>

theorem retrievePolicyDetails_rejects_counterexample:
  "retrievePolicyDetails throwingWorld ''deny-db'' ''shop'' ''NetworkPolicy''
     = Rejected ''spawn E2BIG''
   \<and> blockingPolicies (analyzeLog throwingWorld denySrc) =
       [\<lparr> triggerPolicy = denyPolicy, policyYaml = None,
          bp_error = Some ''Failed to retrieve policy: spawn E2BIG'',
          blockingReason = ''Explicit deny rule'' \<rparr>,
        \<lparr> triggerPolicy = webPolicy, policyYaml = None,
          bp_error = Some ''Failed to retrieve policy: spawn E2BIG'',
          blockingReason = ''End of tier default deny'' \<rparr>]"
proof -
  have "retrievePolicyDetails throwingWorld ''deny-db'' ''shop'' ''NetworkPolicy''
     = Rejected ''spawn E2BIG''"
    by (simp add: retrievePolicyDetails_def resourceType_def throwingWorld_def exampleWorld_def)
  moreover have "blockingPolicies (analyzeLog throwingWorld denySrc) =
       [\<lparr> triggerPolicy = denyPolicy, policyYaml = None,
          bp_error = Some ''Failed to retrieve policy: spawn E2BIG'',
          blockingReason = ''Explicit deny rule'' \<rparr>,
        \<lparr> triggerPolicy = webPolicy, policyYaml = None,
          bp_error = Some ''Failed to retrieve policy: spawn E2BIG'',
          blockingReason = ''End of tier default deny'' \<rparr>]"
    by (simp add: example_blockingPolicies lookupEntry_throws [OF example_failsThrowing(1)]
        lookupEntry_throws [OF example_failsThrowing(2)])
  ultimately show ?thesis by simp
qed

text \<open>
  C9, amended. \<open>retrievePolicyDetails\<close> resolves to null for a kind outside the
  table (without a \<open>kubectl\<close> call), for the event \<open>error\<close>, for a timeout and for
  an exit code other than 0, and to the trimmed output for exit code 0. It rejects
  exactly when the call of \<open>spawn\<close> throws, with the message of the exception. So an
  entry of the blocking policies of a record carries an error message exactly when
  the lookup of its trigger fails in this way: the \<open>catch\<close> branches of
  \<open>analyzeBlockedFlows\<close> are taken then and at no other time.
\<close>

theorem retrievePolicyDetails_outcomes:
  "(resourceType k = None \<longrightarrow> retrievePolicyDetails w n ns k = Resolved None)
   \<and> (\<forall>rt. resourceType k = Some rt \<longrightarrow>
         (kubectl w (kubectlArgs w rt n ns k) = ErrorEvent
            \<longrightarrow> retrievePolicyDetails w n ns k = Resolved None)
       \<and> (kubectl w (kubectlArgs w rt n ns k) = TimeoutEvent
            \<longrightarrow> retrievePolicyDetails w n ns k = Resolved None)
       \<and> (\<forall>code out. kubectl w (kubectlArgs w rt n ns k) = CloseEvent code out
            \<longrightarrow> retrievePolicyDetails w n ns k
                  = Resolved (if code = Some 0 then Some (trim out) else None))
       \<and> (\<forall>msg. kubectl w (kubectlArgs w rt n ns k) = SpawnThrows msg
            \<longrightarrow> retrievePolicyDetails w n ns k = Rejected msg))
   \<and> (\<forall>msg. retrievePolicyDetails w n ns k = Rejected msg \<longleftrightarrow>
         (\<exists>rt. resourceType k = Some rt
               \<and> kubectl w (kubectlArgs w rt n ns k) = SpawnThrows msg))
   \<and> (\<forall>b\<in>set (blockingPolicies (analyzeLog w log)).
         \<forall>e. bp_error b = Some e \<longleftrightarrow>
               (\<exists>msg. failsThrowing w (triggerPolicy b) msg
                      \<and> e = ''Failed to retrieve policy: '' @ msg))"
proof (intro conjI)
  show "resourceType k = None \<longrightarrow> retrievePolicyDetails w n ns k = Resolved None"
    by (simp add: retrievePolicyDetails_unsupported)
  show "\<forall>rt. resourceType k = Some rt \<longrightarrow>
         (kubectl w (kubectlArgs w rt n ns k) = ErrorEvent
            \<longrightarrow> retrievePolicyDetails w n ns k = Resolved None)
       \<and> (kubectl w (kubectlArgs w rt n ns k) = TimeoutEvent
            \<longrightarrow> retrievePolicyDetails w n ns k = Resolved None)
       \<and> (\<forall>code out. kubectl w (kubectlArgs w rt n ns k) = CloseEvent code out
            \<longrightarrow> retrievePolicyDetails w n ns k
                  = Resolved (if code = Some 0 then Some (trim out) else None))
       \<and> (\<forall>msg. kubectl w (kubectlArgs w rt n ns k) = SpawnThrows msg
            \<longrightarrow> retrievePolicyDetails w n ns k = Rejected msg)"
    by (simp add: retrievePolicyDetails_def)
  show "\<forall>msg. retrievePolicyDetails w n ns k = Rejected msg \<longleftrightarrow>
         (\<exists>rt. resourceType k = Some rt
               \<and> kubectl w (kubectlArgs w rt n ns k) = SpawnThrows msg)"
    by (simp add: retrievePolicyDetails_rejects_iff)
  show "\<forall>b\<in>set (blockingPolicies (analyzeLog w log)).
         \<forall>e. bp_error b = Some e \<longleftrightarrow>
               (\<exists>msg. failsThrowing w (triggerPolicy b) msg
                      \<and> e = ''Failed to retrieve policy: '' @ msg)"
  proof
    fix b
    assume "b \<in> set (blockingPolicies (analyzeLog w log))"
    then obtain t reason where b: "b = lookupEntry w t reason"
      by (auto simp add: blockingPolicies_analyzeLog blockingPoliciesOf_eq)
    have "triggerPolicy b = t"
      unfolding b by (simp add: lookupEntry_fields)
    then show "\<forall>e. bp_error b = Some e \<longleftrightarrow>
               (\<exists>msg. failsThrowing w (triggerPolicy b) msg
                      \<and> e = ''Failed to retrieve policy: '' @ msg)"
      unfolding b by (simp add: lookupEntry_error_iff)
  qed
qed

theorem retrievePolicyDetails_outcomes_witness:
  "resourceType ''NetworkPolicy'' = Some ''networkpolicy''
   \<and> kubectl exampleWorld
        (kubectlArgs exampleWorld ''networkpolicy'' ''deny-db'' ''shop'' ''NetworkPolicy'')
       = TimeoutEvent
   \<and> retrievePolicyDetails exampleWorld ''deny-db'' ''shop'' ''NetworkPolicy'' = Resolved None
   \<and> resourceType ''StagedNetworkPolicy'' = None
   \<and> retrievePolicyDetails exampleWorld ''staged-db'' ''shop'' ''StagedNetworkPolicy''
       = Resolved None
   \<and> kubectl throwingWorld
        (kubectlArgs throwingWorld ''networkpolicy'' ''deny-db'' ''shop'' ''NetworkPolicy'')
       = SpawnThrows ''spawn E2BIG''
   \<and> retrievePolicyDetails throwingWorld ''deny-db'' ''shop'' ''NetworkPolicy''
       = Rejected ''spawn E2BIG''
   \<and> map bp_error (blockingPolicies (analyzeLog exampleWorld denySrc)) = [None, None]"
proof -
  have k: "resourceType ''NetworkPolicy'' = Some ''networkpolicy''"
    "resourceType ''StagedNetworkPolicy'' = None"
    by (simp_all add: resourceType_def)
  have t: "kubectl exampleWorld
        (kubectlArgs exampleWorld ''networkpolicy'' ''deny-db'' ''shop'' ''NetworkPolicy'')
       = TimeoutEvent"
    by (simp add: exampleWorld_def)
  have x: "kubectl throwingWorld
        (kubectlArgs throwingWorld ''networkpolicy'' ''deny-db'' ''shop'' ''NetworkPolicy'')
       = SpawnThrows ''spawn E2BIG''"
    by (simp add: throwingWorld_def exampleWorld_def)
  have nt: "\<not> failsThrowing exampleWorld denyPolicy msg"
    "\<not> failsThrowing exampleWorld webPolicy msg" for msg
    by (simp_all add: failsThrowing_def resourceType_def denyPolicy_def webPolicy_def
        exampleWorld_def)
  from retrievePolicyDetails_outcomes
    [of "''NetworkPolicy''" exampleWorld "''deny-db''" "''shop''" denySrc] k t
  have 1: "retrievePolicyDetails exampleWorld ''deny-db'' ''shop'' ''NetworkPolicy'' = Resolved None"
    and e: "\<forall>b\<in>set (blockingPolicies (analyzeLog exampleWorld denySrc)).
         \<forall>e. bp_error b = Some e \<longleftrightarrow>
               (\<exists>msg. failsThrowing exampleWorld (triggerPolicy b) msg
                      \<and> e = ''Failed to retrieve policy: '' @ msg)"
    by blast+
  from retrievePolicyDetails_outcomes
    [of "''StagedNetworkPolicy''" exampleWorld "''staged-db''" "''shop''" denySrc] k
  have 2: "retrievePolicyDetails exampleWorld ''staged-db'' ''shop'' ''StagedNetworkPolicy''
       = Resolved None"
    by blast
  from retrievePolicyDetails_outcomes
    [of "''NetworkPolicy''" throwingWorld "''deny-db''" "''shop''" denySrc] k x
  have 3: "retrievePolicyDetails throwingWorld ''deny-db'' ''shop'' ''NetworkPolicy''
       = Rejected ''spawn E2BIG''"
    by blast
  from e nt have "map bp_error (blockingPolicies (analyzeLog exampleWorld denySrc)) = [None, None]"
    by (simp add: example_blockingPolicies lookupEntry_fields)
  with k t x 1 2 3 show ?thesis by simp
qed

section \<open>Policy drafts\<close>

subsection \<open>Strings\<close>

lemma splitOn_nonempty: "splitOn sep s \<noteq> []"
  by (induction s) (auto split: list.splits)

lemma splitOn_free: "sep \<notin> set a \<Longrightarrow> splitOn sep a = [a]"
  by (induction a) auto

lemma splitOn_append: "sep \<notin> set a \<Longrightarrow> splitOn sep (a @ sep # rest) = a # splitOn sep rest"
  by (induction a) (auto simp add: splitOn_nonempty split: list.splits)

lemma digit_char_digit: "d < 10 \<Longrightarrow> digit_char d \<in> set ''0123456789''"
proof -
  assume "d < 10"
  then have "d \<in> {0, 1, 2, 3, 4, 5, 6, 7, 8, 9}" by auto
  then show ?thesis by (auto simp add: digit_char_def)
qed

lemma digit_char_zero: "d < 10 \<Longrightarrow> digit_char d = CHR ''0'' \<Longrightarrow> d = 0"
proof -
  assume "d < 10"
  then have "d \<in> {0, 1, 2, 3, 4, 5, 6, 7, 8, 9}" by auto
  moreover assume "digit_char d = CHR ''0''"
  ultimately show ?thesis by (auto simp add: digit_char_def)
qed

lemma string_of_nat_digits: "set (string_of_nat n) \<subseteq> set ''0123456789''"
proof (induction n rule: string_of_nat.induct)
  case (1 n)
  show ?case
  proof (cases "n < 10")
    case True
    then show ?thesis
      using digit_char_digit [of n] by (subst string_of_nat.simps) simp
  next
    case False
    have "n mod 10 < 10" by simp
    from digit_char_digit [OF this] 1 [OF False] False show ?thesis
      by (subst string_of_nat.simps) simp
  qed
qed

lemma string_of_nat_nonempty: "string_of_nat n \<noteq> []"
  by (subst string_of_nat.simps) simp

lemma string_of_nat_zero: "string_of_nat n = ''0'' \<longleftrightarrow> n = 0"
proof
  assume z: "string_of_nat n = ''0''"
  show "n = 0"
  proof (cases "n < 10")
    case True
    with z have "digit_char n = CHR ''0''"
      by (subst (asm) string_of_nat.simps) simp
    with True show ?thesis by (rule digit_char_zero)
  next
    case False
    with z have "string_of_nat (n div 10) @ [digit_char (n mod 10)] = ''0''"
      by (subst (asm) string_of_nat.simps) simp
    then have "string_of_nat (n div 10) = []"
      by (simp add: append_eq_Cons_conv)
    then show ?thesis by (simp add: string_of_nat_nonempty)
  qed
next
  assume "n = 0"
  then show "string_of_nat n = ''0''"
    by (simp add: string_of_nat.simps digit_char_def)
qed

lemma digits_below_ten:
  "d < 10 \<Longrightarrow> d \<in> set [0, 1, 2, 3, 4, 5, 6, 7, 8, 9 :: nat]"
  by auto

lemma digitValue_digit_char: "d < 10 \<Longrightarrow> digitValue (digit_char d) = Some d"
proof -
  have "\<forall>d\<in>set [0, 1, 2, 3, 4, 5, 6, 7, 8, 9 :: nat]. digitValue (digit_char d) = Some d"
    unfolding list.set ball_simps by (simp add: digit_char_def digitValue_def)
  then show "d < 10 \<Longrightarrow> digitValue (digit_char d) = Some d"
    using digits_below_ten by blast
qed

lemma parseDigits_append:
  assumes "\<forall>c\<in>set xs. \<exists>d. digitValue c = Some d \<and> d < radix"
  shows "parseDigits radix (xs @ ys) acc = parseDigits radix ys (parseDigits radix xs acc)"
  using assms by (induction xs arbitrary: acc) auto

lemma string_of_nat_digitValues:
  "\<forall>c\<in>set (string_of_nat n). \<exists>d. digitValue c = Some d \<and> d < 10"
proof (induction n rule: string_of_nat.induct)
  case (1 n)
  show ?case
  proof (cases "n < 10")
    case True
    then show ?thesis
      using digitValue_digit_char [of n] by (subst string_of_nat.simps) simp
  next
    case False
    have "n mod 10 < 10" by simp
    from digitValue_digit_char [OF this] 1 [OF False] False show ?thesis
      by (subst string_of_nat.simps) auto
  qed
qed

lemma parseDigits_string_of_nat: "parseDigits 10 (string_of_nat n) None = Some n"
proof (induction n rule: string_of_nat.induct)
  case (1 n)
  show ?case
  proof (cases "n < 10")
    case True
    then show ?thesis
      by (subst string_of_nat.simps) (simp add: digitValue_digit_char)
  next
    case False
    have m: "n mod 10 < 10" by simp
    have "parseDigits 10 (string_of_nat (n div 10) @ [digit_char (n mod 10)]) None
        = parseDigits 10 [digit_char (n mod 10)] (parseDigits 10 (string_of_nat (n div 10)) None)"
      by (rule parseDigits_append) (rule string_of_nat_digitValues)
    also have "\<dots> = Some (n div 10 * 10 + n mod 10)"
      by (simp add: 1 [OF False] digitValue_digit_char [OF m])
    finally show ?thesis
      using False by (subst string_of_nat.simps) simp
  qed
qed

lemma trimStart_no_space:
  assumes "c \<notin> set (map hd whiteSpace)"
  shows "trimStart (c # cs) = c # cs"
proof -
  have "\<not> (\<exists>sp\<in>set whiteSpace. sp \<noteq> [] \<and> take (length sp) (c # cs) = sp)"
  proof
    assume "\<exists>sp\<in>set whiteSpace. sp \<noteq> [] \<and> take (length sp) (c # cs) = sp"
    then obtain sp where sp: "sp \<in> set whiteSpace" "sp \<noteq> []" "take (length sp) (c # cs) = sp"
      by blast
    from sp(2) obtain a as where "sp = a # as" by (cases sp) auto
    with sp(3) have "hd sp = c" by simp
    with sp(1) assms show False by force
  qed
  then have "find (\<lambda>sp. sp \<noteq> [] \<and> take (length sp) (c # cs) = sp) whiteSpace = None"
    by (simp add: find_None_iff)
  then show ?thesis
    by (simp add: trimStart_def dropSpaces.simps)
qed

lemma parseInt_string_of_nat: "parseInt (string_of_nat n) = Some (int n)"
proof -
  let ?S = "string_of_nat n"
  have d: "set ?S \<subseteq> set ''0123456789''"
    by (rule string_of_nat_digits)
  obtain c cs where s: "?S = c # cs"
    using string_of_nat_nonempty [of n] by (cases ?S) auto
  with d have c: "c \<in> set ''0123456789''" by simp
  then have sp: "c \<notin> set (map hd whiteSpace)" and sg: "c \<noteq> CHR ''-''" "c \<noteq> CHR ''+''"
    by (auto simp add: whiteSpace_def)
  have f1: "trimStart ?S = ?S"
    unfolding s using sp by (rule trimStart_no_space)
  have f2: "(case ?S of c # _ \<Rightarrow> c = CHR ''-'' | [] \<Rightarrow> False) = False"
    unfolding s using sg by simp
  have f3: "(case ?S of c # cs \<Rightarrow> if c = CHR ''-'' \<or> c = CHR ''+'' then cs else ?S | [] \<Rightarrow> ?S) = ?S"
    unfolding s using sg by simp
  have "set (take 2 ?S) \<subseteq> set ''0123456789''"
    using d set_take_subset by fast
  then have f4: "(take 2 ?S = ''0x'' \<or> take 2 ?S = ''0X'') = False"
    by auto
  have "parseInt ?S = map_option (\<lambda>n. if False then - int n else int n) (parseDigits 10 ?S None)"
    by (simp only: parseInt_def Let_def f1 f2 f3 f4 if_False)
  then show ?thesis
    by (simp add: parseDigits_string_of_nat)
qed

lemma barFree_port_template: "barFree (port_template p)"
proof (cases p)
  case (PortNum n)
  then show ?thesis
    using string_of_nat_digits [of n] by (auto simp add: barFree_def)
qed (simp_all add: barFree_def)

lemma port_template_zeroOrNull:
  "zeroOrNull p \<longleftrightarrow> port_template p = ''null'' \<or> port_template p = ''0''"
proof (cases p)
  case (PortNum n)
  have "string_of_nat n \<noteq> ''null''"
    using string_of_nat_digits [of n] by auto
  with PortNum show ?thesis
    by (simp add: zeroOrNull_def string_of_nat_zero)
qed (simp_all add: zeroOrNull_def)

lemma port_template_truthy: "p \<noteq> PortUndefined \<Longrightarrow> truthy (port_template p)"
  by (cases p) (simp_all add: truthy_def string_of_nat_nonempty)

lemma split_destKey:
  assumes "barFree (ag_dest_namespace flow)" "barFree (ag_protocol flow)"
  shows "splitOn (CHR ''|'') (destKey flow) =
           [ag_dest_namespace flow, ag_protocol flow, port_template (ag_dest_port flow)]"
proof -
  have "splitOn (CHR ''|'') (port_template (ag_dest_port flow)) = [port_template (ag_dest_port flow)]"
    using barFree_port_template [of "ag_dest_port flow"]
    by (simp add: splitOn_free barFree_def)
  with assms show ?thesis
    by (simp add: destKey_def barFree_def splitOn_append)
qed

subsection \<open>Groups\<close>

lemma set_update_cases:
  "(k', v') \<in> set (AList.update k v al) \<Longrightarrow> (k', v') = (k, v) \<or> (k', v') \<in> set al"
  by (induction al) (auto split: if_splits)

lemma groupPush_cases:
  assumes "(k', vs') \<in> set (groupPush k v groups)"
  shows "(k', vs') \<in> set groups
       \<or> (k' = k \<and> (vs' = [v] \<or> (\<exists>vs. (k, vs) \<in> set groups \<and> vs' = vs @ [v])))"
proof (cases "map_of groups k")
  case None
  with assms show ?thesis
    by (auto simp add: groupPush_def dest: set_update_cases)
next
  case (Some vs)
  then have "(k, vs) \<in> set groups" by (rule map_of_SomeD)
  with Some assms show ?thesis
    by (auto simp add: groupPush_def dest: set_update_cases)
qed

lemma destinationGroups_invariant:
  assumes "\<forall>(k, vs)\<in>set acc. vs \<noteq> [] \<and> (\<forall>v\<in>set vs. destKey v = k \<and> v \<in> A)"
    and "set fls \<subseteq> A"
  shows "\<forall>(k, vs)\<in>set (fold (\<lambda>flow. groupPush (destKey flow) flow) fls acc).
           vs \<noteq> [] \<and> (\<forall>v\<in>set vs. destKey v = k \<and> v \<in> A)"
  using assms
proof (induction fls arbitrary: acc)
  case Nil
  then show ?case by simp
next
  case (Cons flow fls)
  have "\<forall>(k, vs)\<in>set (groupPush (destKey flow) flow acc).
          vs \<noteq> [] \<and> (\<forall>v\<in>set vs. destKey v = k \<and> v \<in> A)"
  proof (clarify)
    fix k vs
    assume "(k, vs) \<in> set (groupPush (destKey flow) flow acc)"
    from groupPush_cases [OF this] Cons.prems
    show "vs \<noteq> [] \<and> (\<forall>v\<in>set vs. destKey v = k \<and> v \<in> A)"
      by fastforce
  qed
  moreover from Cons.prems have "set fls \<subseteq> A" by simp
  ultimately show ?case
    using Cons.IH by simp
qed

lemma destinationGroups_members:
  assumes "(k, vs) \<in> set (destinationGroups fls)"
  shows "vs \<noteq> [] \<and> (\<forall>v\<in>set vs. destKey v = k \<and> v \<in> set fls)"
  using destinationGroups_invariant [of "[]" "set fls" fls] assms
  by (auto simp add: destinationGroups_def)

lemma sourceGroups_invariant:
  assumes "\<forall>(k, vs)\<in>set acc. set vs \<subseteq> A" and "set logs \<subseteq> A"
  shows "\<forall>(k, vs)\<in>set (fold (sourceGroupStep namespace selectorKey) logs acc). set vs \<subseteq> A"
  using assms
proof (induction logs arbitrary: acc)
  case Nil
  then show ?case by simp
next
  case (Cons log logs)
  have "\<forall>(k, vs)\<in>set (sourceGroupStep namespace selectorKey log acc). set vs \<subseteq> A"
  proof (clarify)
    fix k vs x
    assume m: "(k, vs) \<in> set (sourceGroupStep namespace selectorKey log acc)" and x: "x \<in> set vs"
    show "x \<in> A"
    proof (cases "ag_source_namespace log = namespace")
      case False
      with m Cons.prems(1) x show ?thesis
        by (auto simp add: sourceGroupStep_def)
    next
      case True
      show ?thesis
      proof (cases "extractLabelValue (ag_source_labels log) selectorKey")
        case None
        with True m Cons.prems(1) x show ?thesis
          by (auto simp add: sourceGroupStep_def)
      next
        case (Some sv)
        with True m have "(k, vs) \<in> set (groupPush sv log acc)"
          by (simp add: sourceGroupStep_def)
        from groupPush_cases [OF this] Cons.prems x show ?thesis
          by fastforce
      qed
    qed
  qed
  moreover from Cons.prems have "set logs \<subseteq> A" by simp
  ultimately show ?case
    using Cons.IH by simp
qed

lemma sourceGroups_members:
  "(k, vs) \<in> set (sourceGroups logs namespace selectorKey) \<Longrightarrow> set vs \<subseteq> set logs"
  using sourceGroups_invariant [of "[]" "set logs" logs namespace selectorKey]
  by (auto simp add: sourceGroups_def)

lemma mapResult_all2:
  assumes "\<And>x. x \<in> set xs \<Longrightarrow> \<exists>y. f x = Inr y \<and> P y x"
  shows "\<exists>ys. mapResult f xs = Inr ys \<and> list_all2 P ys xs"
  using assms
proof (induction xs)
  case Nil
  then show ?case by simp
next
  case (Cons x xs)
  from Cons.prems obtain y where y: "f x = Inr y" "P y x" by auto
  from Cons obtain ys where ys: "mapResult f xs = Inr ys" "list_all2 P ys xs" by auto
  from y ys show ?case by simp
qed

lemma egressRule_ports:
  assumes ne: "vs \<noteq> []"
    and all: "\<forall>v\<in>set vs. destKey v = k \<and> barFree (ag_dest_namespace v) \<and> barFree (ag_protocol v)"
  shows "\<exists>rule. egressRule namespace selectorKey (k, vs) = Inr rule
           \<and> (\<forall>flow\<in>set vs.
                  (zeroOrNull (ag_dest_port flow) \<longrightarrow> rule_ports rule = None)
                \<and> (\<forall>n. ag_dest_port flow = PortNum n \<and> n \<noteq> 0
                       \<longrightarrow> rule_ports rule =
                             Some [\<lparr> ps_protocol = toUpperCase (ag_protocol flow),
                                      ps_port = Some (int n) \<rparr>]))"
proof -
  from ne obtain v0 rest where vs: "vs = v0 # rest" by (cases vs) auto
  with all have k: "k = destKey v0" and bf: "barFree (ag_dest_namespace v0)" "barFree (ag_protocol v0)"
    by auto
  let ?pt = "port_template (ag_dest_port v0)"
  let ?ports = "if truthy ?pt \<and> ?pt \<noteq> ''null'' \<and> ?pt \<noteq> ''0''
                then Some [\<lparr> ps_protocol = toUpperCase (ag_protocol v0), ps_port = parseInt ?pt \<rparr>]
                else None"
  have sp: "splitOn (CHR ''|'') k = [ag_dest_namespace v0, ag_protocol v0, ?pt]"
    unfolding k using bf by (rule split_destKey)
  have "\<exists>rule. egressRule namespace selectorKey (k, vs) = Inr rule \<and> rule_ports rule = ?ports"
    by (simp add: egressRule_def sp vs Let_def)
  then obtain rule where r: "egressRule namespace selectorKey (k, vs) = Inr rule"
    and p: "rule_ports rule = ?ports" by blast
  have "(zeroOrNull (ag_dest_port flow) \<longrightarrow> rule_ports rule = None)
      \<and> (\<forall>n. ag_dest_port flow = PortNum n \<and> n \<noteq> 0
                       \<longrightarrow> rule_ports rule =
                             Some [\<lparr> ps_protocol = toUpperCase (ag_protocol flow),
                                      ps_port = Some (int n) \<rparr>])"
    if f: "flow \<in> set vs" for flow
  proof -
    from f all have "destKey flow = k" "barFree (ag_dest_namespace flow)" "barFree (ag_protocol flow)"
      by auto
    with split_destKey [of flow] sp have pt: "port_template (ag_dest_port flow) = ?pt"
      and pr: "ag_protocol flow = ag_protocol v0"
      by simp_all
    have z: "zeroOrNull (ag_dest_port flow) \<longleftrightarrow> ?pt = ''null'' \<or> ?pt = ''0''"
      by (simp add: port_template_zeroOrNull pt)
    have 1: "rule_ports rule = None" if "zeroOrNull (ag_dest_port flow)"
    proof -
      from that z have "?pt = ''null'' \<or> ?pt = ''0''" by simp
      then show ?thesis unfolding p by auto
    qed
    have 2: "rule_ports rule =
               Some [\<lparr> ps_protocol = toUpperCase (ag_protocol flow), ps_port = Some (int n) \<rparr>]"
      if "ag_dest_port flow = PortNum n \<and> n \<noteq> 0" for n
    proof -
      from that have "\<not> zeroOrNull (ag_dest_port flow)"
        by (simp add: zeroOrNull_def)
      with z have "?pt \<noteq> ''null''" "?pt \<noteq> ''0''" by simp_all
      moreover from that have "truthy ?pt"
        using port_template_truthy [of "ag_dest_port flow"] pt by simp
      moreover from that pt have "parseInt ?pt = Some (int n)"
        using parseInt_string_of_nat [of n] by simp
      ultimately show ?thesis unfolding p by (simp add: pr)
    qed
    from 1 2 show ?thesis by blast
  qed
  with r show ?thesis by blast
qed

text \<open>
  C5, as it is stated, fails: for one aggregated flow to port 0 the draft has an
  egress rule (without ports).
\<close>

theorem rule_emitted_for_port_zero_counterexample:
  "ag_dest_port portZeroFlow = PortNum 0
   \<and> generateCalicoNetworkPolicies [portZeroFlow] ''shop'' ''app'' =
       Inr [\<lparr> apiVersion = ''projectcalico.org/v3'', draft_kind = ''NetworkPolicy'',
              metadata_name = ''allow-frontend-egress'', metadata_namespace = ''shop'',
              spec_selector = (''app'', ''frontend''), spec_types = [''Egress''],
              egress =
                [\<lparr> rule_action = ''Allow'', namespaceSelector = None,
                   dest_selector = Some (''app'', ''backend''), rule_protocol = ''TCP'',
                   rule_ports = None \<rparr>] \<rparr>]"
  by code_simp

text \<open>
  C5, amended. When no destination namespace and no protocol of the input contains
  the bar that separates the fields of the destination key, the generator does not
  throw, it makes one draft for every source group and in it one egress rule for
  every destination sub-group, and the rule of a sub-group whose destination port is 0
  or null has no \<open>ports\<close>, while the rule of a sub-group whose port is a number
  other than 0 has that port, with the protocol in capitals.
\<close>

theorem ports_omitted_for_zero_or_null:
  assumes "\<forall>log\<in>set aggregatedLogs. barFree (ag_dest_namespace log) \<and> barFree (ag_protocol log)"
  shows "\<exists>drafts.
           generateCalicoNetworkPolicies aggregatedLogs namespace selectorKey = Inr drafts
           \<and> list_all2
                (\<lambda>draft sourceGroup.
                   list_all2
                     (\<lambda>rule destGroup.
                        snd destGroup \<noteq> []
                        \<and> (\<forall>flow\<in>set (snd destGroup).
                              (zeroOrNull (ag_dest_port flow) \<longrightarrow> rule_ports rule = None)
                            \<and> (\<forall>n. ag_dest_port flow = PortNum n \<and> n \<noteq> 0
                                   \<longrightarrow> rule_ports rule =
                                         Some [\<lparr> ps_protocol = toUpperCase (ag_protocol flow),
                                                  ps_port = Some (int n) \<rparr>])))
                     (egress draft) (destinationGroups (snd sourceGroup)))
                drafts (sourceGroups aggregatedLogs namespace selectorKey)"
  unfolding generateCalicoNetworkPolicies_def
proof (rule mapResult_all2)
  fix sourceGroup
  assume sg: "sourceGroup \<in> set (sourceGroups aggregatedLogs namespace selectorKey)"
  then have "(fst sourceGroup, snd sourceGroup)
      \<in> set (sourceGroups aggregatedLogs namespace selectorKey)" by simp
  then have sub: "set (snd sourceGroup) \<subseteq> set aggregatedLogs"
    by (rule sourceGroups_members)
  let ?P = "\<lambda>rule destGroup.
              snd destGroup \<noteq> []
              \<and> (\<forall>flow\<in>set (snd destGroup).
                    (zeroOrNull (ag_dest_port flow) \<longrightarrow> rule_ports rule = None)
                  \<and> (\<forall>n. ag_dest_port flow = PortNum n \<and> n \<noteq> 0
                       \<longrightarrow> rule_ports rule =
                             Some [\<lparr> ps_protocol = toUpperCase (ag_protocol flow),
                                      ps_port = Some (int n) \<rparr>]))"
  have "\<exists>rules. mapResult (egressRule namespace selectorKey) (destinationGroups (snd sourceGroup))
            = Inr rules
          \<and> list_all2 ?P rules (destinationGroups (snd sourceGroup))"
  proof (rule mapResult_all2)
    fix destGroup
    assume "destGroup \<in> set (destinationGroups (snd sourceGroup))"
    then have "(fst destGroup, snd destGroup) \<in> set (destinationGroups (snd sourceGroup))"
      by simp
    from destinationGroups_members [OF this]
    have ne: "snd destGroup \<noteq> []"
      and m: "\<forall>v\<in>set (snd destGroup). destKey v = fst destGroup \<and> v \<in> set (snd sourceGroup)"
      by simp_all
    from m sub assms
    have "\<forall>v\<in>set (snd destGroup). destKey v = fst destGroup
            \<and> barFree (ag_dest_namespace v) \<and> barFree (ag_protocol v)"
      by blast
    from egressRule_ports [OF ne this, of namespace selectorKey] ne
    show "\<exists>rule. egressRule namespace selectorKey destGroup = Inr rule \<and> ?P rule destGroup"
      by simp
  qed
  then obtain rules where
    r: "mapResult (egressRule namespace selectorKey) (destinationGroups (snd sourceGroup)) = Inr rules"
    and p: "list_all2 ?P rules (destinationGroups (snd sourceGroup))"
    by blast
  show "\<exists>draft. policyFor namespace selectorKey sourceGroup = Inr draft
          \<and> list_all2 ?P (egress draft) (destinationGroups (snd sourceGroup))"
    using p by (simp add: policyFor_def r)
qed

theorem ports_omitted_for_zero_or_null_witness:
  "barFree (ag_dest_namespace portZeroFlow) \<and> barFree (ag_protocol portZeroFlow)
   \<and> zeroOrNull (ag_dest_port portZeroFlow)
   \<and> (\<exists>drafts.
         generateCalicoNetworkPolicies [portZeroFlow] ''shop'' ''app'' = Inr drafts
         \<and> list_all2
              (\<lambda>draft sourceGroup.
                 list_all2
                   (\<lambda>rule destGroup.
                      snd destGroup \<noteq> []
                      \<and> (\<forall>flow\<in>set (snd destGroup).
                            (zeroOrNull (ag_dest_port flow) \<longrightarrow> rule_ports rule = None)
                          \<and> (\<forall>n. ag_dest_port flow = PortNum n \<and> n \<noteq> 0
                                   \<longrightarrow> rule_ports rule =
                                         Some [\<lparr> ps_protocol = toUpperCase (ag_protocol flow),
                                                  ps_port = Some (int n) \<rparr>])))
                   (egress draft) (destinationGroups (snd sourceGroup)))
              drafts (sourceGroups [portZeroFlow] ''shop'' ''app''))"
proof -
  have b: "barFree (ag_dest_namespace portZeroFlow)" "barFree (ag_protocol portZeroFlow)"
    and z: "zeroOrNull (ag_dest_port portZeroFlow)"
    by (simp_all add: portZeroFlow_def barFree_def zeroOrNull_def)
  then have "\<forall>log\<in>set [portZeroFlow]. barFree (ag_dest_namespace log) \<and> barFree (ag_protocol log)"
    by simp
  from ports_omitted_for_zero_or_null [OF this, of "''shop''" "''app''"] b z
  show ?thesis by blast
qed

section \<open>Required parameters of the two handlers\<close>

lemma summary_requires_namespace:
  "\<not> truthyOpt (arg_namespace args) \<Longrightarrow>
     handleGetNamespaceFlowSummary args w
       = (Resolved (Message ''Error: namespace parameter is required''), w)"
  by (simp add: handleGetNamespaceFlowSummary_def)

lemma generate_requires_selectorKey:
  "\<not> truthyOpt (arg_selectorKey args) \<Longrightarrow>
     handleGenerateNetworkPolicies args w = (Resolved (Message selectorKeyRequired), w)"
  by (simp add: handleGenerateNetworkPolicies_def)

lemma generate_fetches_without_namespace:
  "truthyOpt (arg_selectorKey args) \<Longrightarrow>
     snd (handleGenerateNetworkPolicies args w) = w \<lparr> fetches := Suc (fetches w) \<rparr>"
  by (simp add: handleGenerateNetworkPolicies_def getFlowLogs_def Let_def
      split: fetchResult.splits)

text \<open>
  C6 at a request for policy generation that has a selector key and no namespace:
  the handler reports no error, it sends the request for the flow logs (the count of
  fetches goes from 0 to 1) and answers with an empty aggregation.
\<close>

theorem generate_policies_missing_namespace:
  "fetches exampleWorld = 0
   \<and> handleGenerateNetworkPolicies \<lparr> arg_namespace = None, arg_selectorKey = Some ''app'' \<rparr>
        exampleWorld
       = (Resolved (PolicyDataText
            \<lparr> pg_namespace = None, pg_selectorKey = Some ''app'', aggregatedFlows = [],
              pg_totalUniqueFlows = 0,
              analysisNote = ''Use this aggregated data to manually create network policies based on observed traffic patterns'' \<rparr>),
          exampleWorld \<lparr> fetches := 1 \<rparr>)"
  by (simp add: handleGenerateNetworkPolicies_def getFlowLogs_def exampleWorld_def truthyOpt_def
      truthy_def aggregateLogsForPolicyGeneration_def)

end
